theory Spec2Isabelle
  imports Complex_Main "HOL-Library.Multiset"
begin

section \<open>Python values\<close>

text \<open>
  A Python \<open>str\<close> is a sequence of Unicode code points; \<open>len\<close> counts code
  points, so a string is a list of code points (natural numbers).
\<close>

type_synonym ustr = "nat list"

text \<open>
  A Python \<open>float\<close>: a finite double is the rational number it denotes (Python compares
  a float with an int by exact value), plus the two infinities and NaN.
\<close>

datatype pyfloat = Finite rat | PosInf | NegInf | NaN

text \<open>
  The values \<open>json.loads\<close> produces. A \<open>dict\<close> is an association list whose first
  binding of a key is the key's value.
\<close>

datatype json =
    JNull
  | JBool bool
  | JInt int
  | JFloat pyfloat
  | JStr ustr
  | JArr "json list"
  | JObj "(ustr \<times> json) list"

text \<open>
  The subclasses of \<open>Exception\<close> that the modelled code can meet. \<open>Raised msg\<close> is
  an exception raised by a collaborator (\<open>json.loads\<close>, \<open>generate_content\<close>).
\<close>

datatype py_error =
    AttributeError
  | TypeError
  | KeyError
  | IndexError
  | ValueError
  | ZeroDivisionError
  | Raised ustr

text \<open>
  The result of an f-string or of \<open>str.join\<close>: the sequence of its pieces. \<open>Lit s\<close>
  is literal text, \<open>Str v\<close> the interpolation \<open>{v}\<close> of a value and \<open>Exc e\<close> the
  interpolation \<open>{str(e)}\<close> of a caught exception (the wording of the message is the
  interpreter's).
\<close>

datatype piece = Lit ustr | Str json | Exc py_error

type_synonym fstr = "piece list"

definition ebind :: "py_error + 'a \<Rightarrow> ('a \<Rightarrow> py_error + 'b) \<Rightarrow> py_error + 'b" where
  "ebind m f = (case m of Inl e \<Rightarrow> Inl e | Inr x \<Rightarrow> f x)"

text \<open>\<open>len(x)\<close>\<close>

fun py_len :: "json \<Rightarrow> py_error + nat" where
  "py_len (JStr s) = Inr (length s)"
| "py_len (JArr xs) = Inr (length xs)"
| "py_len (JObj kvs) = Inr (length (remdups (map fst kvs)))"
| "py_len _ = Inl TypeError"

text \<open>\<open>x.get(k, d)\<close>\<close>

fun dict_get :: "json \<Rightarrow> ustr \<Rightarrow> json \<Rightarrow> py_error + json" where
  "dict_get (JObj kvs) k d = Inr (case map_of kvs k of None \<Rightarrow> d | Some v \<Rightarrow> v)"
| "dict_get _ k d = Inl AttributeError"

text \<open>\<open>x[i]\<close> for a literal index \<open>i \<ge> 0\<close>; a decoded dict has string keys only.\<close>

fun getitem_int :: "json \<Rightarrow> nat \<Rightarrow> py_error + json" where
  "getitem_int (JArr xs) i = (if i < length xs then Inr (xs ! i) else Inl IndexError)"
| "getitem_int (JStr s) i = (if i < length s then Inr (JStr [s ! i]) else Inl IndexError)"
| "getitem_int (JObj kvs) i = Inl KeyError"
| "getitem_int _ i = Inl TypeError"

text \<open>\<open>x[k]\<close> for a string key \<open>k\<close>\<close>

fun getitem_str :: "json \<Rightarrow> ustr \<Rightarrow> py_error + json" where
  "getitem_str (JObj kvs) k = (case map_of kvs k of None \<Rightarrow> Inl KeyError | Some v \<Rightarrow> Inr v)"
| "getitem_str _ k = Inl TypeError"

text \<open>Truth value of a Python object.\<close>

fun truthy :: "json \<Rightarrow> bool" where
  "truthy JNull = False"
| "truthy (JBool b) = b"
| "truthy (JInt n) = (n \<noteq> 0)"
| "truthy (JFloat f) = (f \<noteq> Finite 0)"
| "truthy (JStr s) = (s \<noteq> [])"
| "truthy (JArr xs) = (xs \<noteq> [])"
| "truthy (JObj kvs) = (kvs \<noteq> [])"

text \<open>\<open>x >= k\<close> for an int \<open>k\<close>; \<open>bool\<close> is a subclass of \<open>int\<close>.\<close>

fun float_ge_int :: "pyfloat \<Rightarrow> int \<Rightarrow> bool" where
  "float_ge_int (Finite r) k = (of_int k \<le> r)"
| "float_ge_int PosInf k = True"
| "float_ge_int NegInf k = False"
| "float_ge_int NaN k = False"

fun py_ge :: "json \<Rightarrow> int \<Rightarrow> py_error + bool" where
  "py_ge (JInt n) k = Inr (k \<le> n)"
| "py_ge (JBool b) k = Inr (k \<le> (if b then 1 else 0))"
| "py_ge (JFloat f) k = Inr (float_ge_int f k)"
| "py_ge _ k = Inl TypeError"

text \<open>\<open>needle in s\<close> on strings: \<open>contains s needle\<close>.\<close>

fun starts_with :: "ustr \<Rightarrow> ustr \<Rightarrow> bool" where
  "starts_with s [] = True"
| "starts_with [] (p # ps) = False"
| "starts_with (c # cs) (p # ps) = (c = p \<and> starts_with cs ps)"

fun contains :: "ustr \<Rightarrow> ustr \<Rightarrow> bool" where
  "contains [] needle = (needle = [])"
| "contains (c # cs) needle = (starts_with (c # cs) needle \<or> contains cs needle)"

text \<open>\<open>needle in x\<close> for a string \<open>needle\<close> and any container \<open>x\<close>.\<close>

fun py_in :: "ustr \<Rightarrow> json \<Rightarrow> py_error + bool" where
  "py_in needle (JStr s) = Inr (contains s needle)"
| "py_in needle (JArr xs) = Inr (JStr needle \<in> set xs)"
| "py_in needle (JObj kvs) = Inr (needle \<in> set (map fst kvs))"
| "py_in needle _ = Inl TypeError"

text \<open>
  \<open>str.strip()\<close> removes the leading and trailing characters for which \<open>str.isspace\<close>
  holds.
\<close>

definition is_space :: "nat \<Rightarrow> bool" where
  "is_space c \<longleftrightarrow>
     (0x9 \<le> c \<and> c \<le> 0xD) \<or> (0x1C \<le> c \<and> c \<le> 0x20) \<or> c = 0x85 \<or> c = 0xA0 \<or>
     c = 0x1680 \<or> (0x2000 \<le> c \<and> c \<le> 0x200A) \<or> c = 0x2028 \<or> c = 0x2029 \<or>
     c = 0x202F \<or> c = 0x205F \<or> c = 0x3000"

definition strip :: "ustr \<Rightarrow> ustr" where
  "strip s = rev (dropWhile is_space (rev (dropWhile is_space s)))"

text \<open>\<open>sep.join(xs)\<close> on formatted strings.\<close>

fun join :: "fstr \<Rightarrow> fstr list \<Rightarrow> fstr" where
  "join sep [] = []"
| "join sep [x] = x"
| "join sep (x # y # ys) = x @ sep @ join sep (y # ys)"

section \<open>rules.py\<close>

record FilterStats =
  question_length :: nat
  answer_length :: nat
  has_question_mark :: bool
  is_hotel_related :: bool
  hotel_keywords_found :: "ustr list"

text \<open>
  \<open>is_kept\<close> and \<open>score\<close> are declared \<open>bool\<close> and \<open>int\<close>; the merge stores
  whatever the evaluation holds, so they are Python values here.
\<close>

record FilterResult =
  index :: nat
  is_kept :: json
  score :: json
  reason :: fstr
  stage :: string
  stats :: FilterStats

record ProcessingConfig =
  min_score :: int
  batch_size :: int
  max_workers :: int
  sample_size :: "int option"

text \<open>The forty entries of \<open>HOTEL_KEYWORDS\<close>, in source order, as code points.\<close>

definition HOTEL_KEYWORDS :: "ustr list" where
  "HOTEL_KEYWORDS =
   [[0x9152, 0x5E97], [0x5BBE, 0x9986], [0x5BA2, 0x623F], [0x623F, 0x95F4],
    [0x524D, 0x53F0], [0x670D, 0x52A1], [0x5165, 0x4F4F], [0x9000, 0x623F],
    [0x9884, 0x8BA2], [0x9884, 0x5B9A], [0x9910, 0x5385], [0x5BA2, 0x4EBA],
    [0x987E, 0x5BA2], [0x4F4F, 0x5BA2], [0x7BA1, 0x5BB6], [0x6E05, 0x6D01],
    [0x7EF4, 0x4FEE], [0x8BBE, 0x65BD], [0x65E9, 0x9910], [0x4F1A, 0x8BAE],
    [0x6D3B, 0x52A8], [0x6295, 0x8BC9], [0x5EFA, 0x8BAE], [0x63A5, 0x5F85],
    [0x767B, 0x8BB0], [0x7ED3, 0x8D26], [0x623F, 0x5361], [0x94A5, 0x5319],
    [0x6BDB, 0x5DFE], [0x5E8A, 0x5355], [0x7A7A, 0x8C03], [0x7535, 0x89C6],
    [0x6D74, 0x5BA4], [0x6D17, 0x6F31], [0x6BDB, 0x5DFE], [0x62D6, 0x978B],
    [0x793C, 0x5BBE], [0x884C, 0x674E], [0x53EB, 0x9192], [0x7EED, 0x4F4F]]"

definition MIN_QUESTION_LENGTH :: nat where "MIN_QUESTION_LENGTH = 8"
definition MAX_QUESTION_LENGTH :: nat where "MAX_QUESTION_LENGTH = 120"
definition MIN_ANSWER_LENGTH :: nat where "MIN_ANSWER_LENGTH = 30"
definition MAX_ANSWER_LENGTH :: nat where "MAX_ANSWER_LENGTH = 1200"
definition MIN_ANSWER_CONTENT_LENGTH :: nat where "MIN_ANSWER_CONTENT_LENGTH = 20"

text \<open>The dictionary keys \<open>'contents'\<close>, \<open>'parts'\<close> and \<open>'text'\<close>.\<close>

definition key_contents :: ustr where
  "key_contents = [0x63, 0x6F, 0x6E, 0x74, 0x65, 0x6E, 0x74, 0x73]"

definition key_parts :: ustr where
  "key_parts = [0x70, 0x61, 0x72, 0x74, 0x73]"

definition key_text :: ustr where
  "key_text = [0x74, 0x65, 0x78, 0x74]"

text \<open>The diagnostics of \<open>validate_entry\<close>: literal texts of the source, as code points.\<close>

definition msg_missing_contents :: ustr where
  "msg_missing_contents =
     [0x6570, 0x636E, 0x683C, 0x5F0F, 0x9519, 0x8BEF, 0xFF1A, 0x7F3A, 0x5C11, 0x95EE,
      0x7B54, 0x5185, 0x5BB9]"

definition msg_question_length :: ustr where
  "msg_question_length = [0x95EE, 0x9898, 0x957F, 0x5EA6, 0x5F02, 0x5E38, 0x28]"

definition msg_answer_length :: ustr where
  "msg_answer_length = [0x56DE, 0x7B54, 0x957F, 0x5EA6, 0x5F02, 0x5E38, 0x28]"

definition msg_chars :: ustr where
  "msg_chars = [0x5B57, 0x7B26, 0x29]"

definition msg_no_question_mark :: ustr where
  "msg_no_question_mark = [0x95EE, 0x9898, 0x7F3A, 0x5C11, 0x7591, 0x95EE, 0x6807, 0x8BB0]"

definition msg_answer_too_short :: ustr where
  "msg_answer_too_short = [0x56DE, 0x7B54, 0x5185, 0x5BB9, 0x8FC7, 0x77ED]"

definition msg_not_hotel_related :: ustr where
  "msg_not_hotel_related = [0x4E0E, 0x9152, 0x5E97, 0x670D, 0x52A1, 0x4E0D, 0x76F8, 0x5173]"

definition msg_passed :: ustr where
  "msg_passed = [0x901A, 0x8FC7, 0x89C4, 0x5219, 0x68C0, 0x67E5]"

definition msg_processing_error :: ustr where
  "msg_processing_error = [0x5904, 0x7406, 0x9519, 0x8BEF, 0x3A, 0x20]"

definition zero_stats :: FilterStats where
  "zero_stats =
     \<lparr>question_length = 0, answer_length = 0, has_question_mark = False,
      is_hotel_related = False, hotel_keywords_found = []\<rparr>"

text \<open>\<open>contents[i]['parts'][0]['text']\<close>\<close>

definition turn_text :: "json \<Rightarrow> nat \<Rightarrow> py_error + json" where
  "turn_text contents i =
     ebind (getitem_int contents i) (\<lambda>turn.
     ebind (getitem_str turn key_parts) (\<lambda>parts.
     ebind (getitem_int parts 0) (\<lambda>part.
     getitem_str part key_text)))"

text \<open>
  The checks of \<open>validate_entry\<close> on a question and an answer that are both strings:
  the statements from the construction of \<open>stats\<close> to the \<open>return\<close>.
\<close>

definition check_texts :: "ustr \<Rightarrow> ustr \<Rightarrow> bool \<times> fstr \<times> FilterStats" where
  "check_texts question answer =
     (let stats0 =
            \<lparr>question_length = length question, answer_length = length answer,
             has_question_mark = (contains question [0xFF1F] \<or> contains question [0x3F]),
             is_hotel_related = False, hotel_keywords_found = []\<rparr>;
          issues1 =
            (if \<not> (MIN_QUESTION_LENGTH \<le> length question \<and>
                    length question \<le> MAX_QUESTION_LENGTH)
             then [[Lit msg_question_length, Str (JInt (int (length question))), Lit msg_chars]]
             else []);
          issues2 = issues1 @
            (if \<not> (MIN_ANSWER_LENGTH \<le> length answer \<and> length answer \<le> MAX_ANSWER_LENGTH)
             then [[Lit msg_answer_length, Str (JInt (int (length answer))), Lit msg_chars]]
             else []);
          issues3 = issues2 @
            (if \<not> has_question_mark stats0 then [[Lit msg_no_question_mark]] else []);
          issues4 = issues3 @
            (if length (strip answer) < MIN_ANSWER_CONTENT_LENGTH
             then [[Lit msg_answer_too_short]] else []);
          combined_text = question @ answer;
          found_keywords = filter (\<lambda>kw. contains combined_text kw) HOTEL_KEYWORDS;
          stats = stats0\<lparr>hotel_keywords_found := found_keywords,
                         is_hotel_related := (0 < length found_keywords)\<rparr>;
          issues = issues4 @
            (if \<not> is_hotel_related stats then [[Lit msg_not_hotel_related]] else []);
          is_valid = (length issues \<le> 1 \<and> is_hotel_related stats);
          reason = (if issues \<noteq> [] then join [Lit [0x3B, 0x20]] issues else [Lit msg_passed])
      in (is_valid, reason, stats))"

text \<open>
  The body of the \<open>try\<close> block. Both texts are measured with \<open>len\<close> first (a
  \<open>TypeError\<close> on a value without length); after that the membership tests cannot
  raise; \<open>answer.strip()\<close> raises \<open>AttributeError\<close> unless the answer is a string, and
  \<open>question + answer\<close> raises \<open>TypeError\<close> unless the question is one too.
\<close>

definition validate_entry_try :: "json \<Rightarrow> py_error + bool \<times> fstr \<times> FilterStats" where
  "validate_entry_try entry =
     ebind (dict_get entry key_contents (JArr [])) (\<lambda>contents.
     ebind (py_len contents) (\<lambda>n.
     if n < 2 then Inr (False, [Lit msg_missing_contents], zero_stats)
     else
       ebind (turn_text contents 0) (\<lambda>question.
       ebind (turn_text contents 1) (\<lambda>answer.
       ebind (py_len question) (\<lambda>ql.
       ebind (py_len answer) (\<lambda>al.
       ebind (py_in [0xFF1F] question) (\<lambda>m1.
       ebind (py_in [0x3F] question) (\<lambda>m2.
       (case answer of
          JStr a \<Rightarrow> (case question of JStr q \<Rightarrow> Inr (check_texts q a) | _ \<Rightarrow> Inl TypeError)
        | _ \<Rightarrow> Inl AttributeError)))))))))"

definition validate_entry :: "json \<Rightarrow> bool \<times> fstr \<times> FilterStats" where
  "validate_entry entry =
     (case validate_entry_try entry of
        Inr r \<Rightarrow> r
      | Inl e \<Rightarrow> (False, [Lit msg_processing_error, Exc e], zero_stats))"


section \<open>filter.py\<close>

text \<open>
  Logging, the timers and the progress counter do not influence any returned value and
  are left out. The two collaborators, \<open>json.loads\<close> and the \<open>generate_content\<close>
  of the injected manager, are parameters of the functions that call them.
\<close>

text \<open>
  An evaluation is the dict \<open>{'score': .., 'keep': .., 'reason': ..}\<close>; a field is
  \<open>None\<close> when the dict lacks the key.
\<close>

record evaluation =
  e_score :: "json option"
  e_keep :: "json option"
  e_reason :: "fstr option"

definition key_score :: ustr where
  "key_score = [0x73, 0x63, 0x6F, 0x72, 0x65]"

definition key_keep :: ustr where
  "key_keep = [0x6B, 0x65, 0x65, 0x70]"

text \<open>Literal texts of the source, as code points.\<close>

definition msg_ai_eval :: ustr where
  "msg_ai_eval = [0x41, 0x49, 0x8BC4, 0x4F30, 0x28, 0x5206, 0x6570, 0x3A]"

definition msg_close :: ustr where
  "msg_close = [0x29]"

definition msg_parse_failed :: ustr where
  "msg_parse_failed = [0x89E3, 0x6790, 0x5931, 0x8D25, 0x3A, 0x20]"

definition msg_format_error :: ustr where
  "msg_format_error = [0x6570, 0x636E, 0x683C, 0x5F0F, 0x9519, 0x8BEF]"

definition msg_ai_batch :: ustr where
  "msg_ai_batch = [0x41, 0x49, 0x8BC4, 0x4F30, 0x2D, 0x6279, 0x6B21]"

definition msg_score_open :: ustr where
  "msg_score_open = [0x28, 0x5206, 0x6570, 0x3A]"

definition msg_eval_failed :: ustr where
  "msg_eval_failed = [0x8BC4, 0x4F30, 0x5931, 0x8D25, 0x2D, 0x6279, 0x6B21]"

definition msg_colon :: ustr where
  "msg_colon = [0x3A, 0x20]"

definition msg_batch :: ustr where
  "msg_batch = [0x6279, 0x6B21]"

definition msg_processing_failed :: ustr where
  "msg_processing_failed = [0x5904, 0x7406, 0x5931, 0x8D25]"

definition msg_not_evaluated :: ustr where
  "msg_not_evaluated = [0x672A, 0x8FDB, 0x884C, 0x41, 0x49, 0x8BC4, 0x4F30]"

definition prompt_open :: ustr where
  "prompt_open = [0x8BF7, 0x8BC4, 0x4F30, 0x4EE5, 0x4E0B]"

definition prompt_criteria :: ustr where
  "prompt_criteria =
     [0x4E2A, 0x9152, 0x5E97, 0x670D, 0x52A1, 0x95EE, 0x7B54, 0x5BF9, 0x7684, 0x8D28,
      0x91CF, 0x3002, 0xA, 0x8BC4, 0x5206, 0x6807, 0x51C6, 0xFF1A, 0x31, 0x2D,
      0x31, 0x30, 0x5206, 0xFF0C, 0x37, 0x5206, 0x53CA, 0x4EE5, 0x4E0A, 0x4E3A,
      0x9AD8, 0x8D28, 0x91CF, 0x6570, 0x636E, 0x3002, 0xA, 0xA, 0x8BC4, 0x4F30,
      0x8981, 0x70B9, 0xFF1A, 0xA, 0x31, 0x2E, 0x20, 0x95EE, 0x9898, 0x662F,
      0x5426, 0x6E05, 0x6670, 0x5177, 0x4F53, 0x4E14, 0x4E0E, 0x9152, 0x5E97, 0x670D,
      0x52A1, 0x76F8, 0x5173, 0xFF1F, 0xA, 0x32, 0x2E, 0x20, 0x56DE, 0x7B54,
      0x662F, 0x5426, 0x4E13, 0x4E1A, 0x51C6, 0x786E, 0x4E14, 0x6709, 0x5B9E, 0x7528,
      0x4EF7, 0x503C, 0xFF1F, 0xA, 0x33, 0x2E, 0x20, 0x95EE, 0x7B54, 0x662F,
      0x5426, 0x5339, 0x914D, 0x4E14, 0x903B, 0x8F91, 0x5408, 0x7406, 0xFF1F, 0xA,
      0xA]"

definition prompt_format :: ustr where
  "prompt_format =
     [0xA, 0xA, 0x8BF7, 0x4E25, 0x683C, 0x6309, 0x7167, 0x4A, 0x53, 0x4F,
      0x4E, 0x6570, 0x7EC4, 0x683C, 0x5F0F, 0x56DE, 0x590D, 0xFF1A, 0xA, 0x5B,
      0x7B, 0x22, 0x73, 0x63, 0x6F, 0x72, 0x65, 0x22, 0x3A, 0x38,
      0x2C, 0x22, 0x6B, 0x65, 0x65, 0x70, 0x22, 0x3A, 0x74, 0x72,
      0x75, 0x65, 0x7D, 0x2C, 0x7B, 0x22, 0x73, 0x63, 0x6F, 0x72,
      0x65, 0x22, 0x3A, 0x36, 0x2C, 0x22, 0x6B, 0x65, 0x65, 0x70,
      0x22, 0x3A, 0x66, 0x61, 0x6C, 0x73, 0x65, 0x7D, 0x2E, 0x2E,
      0x2E, 0x5D]"

subsection \<open>create_evaluation_prompt\<close>

text \<open>
  \<open>x[:n]\<close>. Slicing a dict raises (\<open>TypeError\<close> up to Python 3.11, \<open>KeyError\<close>
  from 3.12 on; the kind is not observable, only that it is an \<open>Exception\<close>).
\<close>

fun py_slice_to :: "json \<Rightarrow> nat \<Rightarrow> py_error + json" where
  "py_slice_to (JStr s) n = Inr (JStr (take n s))"
| "py_slice_to (JArr xs) n = Inr (JArr (take n xs))"
| "py_slice_to _ n = Inl TypeError"

text \<open>\<open>x[:n] if len(x) > n else x\<close>\<close>

definition truncated :: "json \<Rightarrow> nat \<Rightarrow> py_error + json" where
  "truncated x n = ebind (py_len x) (\<lambda>l. if n < l then py_slice_to x n else Inr x)"

fun batch_items :: "nat \<Rightarrow> (json \<times> json) list \<Rightarrow> py_error + fstr list" where
  "batch_items idx [] = Inr []"
| "batch_items idx ((question, answer) # rest) =
     ebind (truncated question 100) (\<lambda>truncated_question.
     ebind (truncated answer 300) (\<lambda>truncated_answer.
     ebind (batch_items (idx + 1) rest) (\<lambda>items.
     Inr ([Lit [0x5B], Str (JInt (int idx + 1)), Lit [0x5D, 0x20, 0x51, 0x3A, 0x20],
           Str truncated_question, Lit [0xA, 0x41, 0x3A, 0x20], Str truncated_answer]
          # items))))"

definition create_evaluation_prompt :: "(json \<times> json) list \<Rightarrow> py_error + fstr" where
  "create_evaluation_prompt entries_data =
     ebind (batch_items 0 entries_data) (\<lambda>items.
     Inr ([Lit prompt_open, Str (JInt (int (length items))), Lit prompt_criteria]
          @ join [Lit [0xA]] items @ [Lit prompt_format]))"

subsection \<open>parse_ai_response\<close>

text \<open>
  \<open>re.search(r'\[.*?\]', response_text, re.DOTALL)\<close>: the leftmost match starts at the
  first \<open>[\<close> that has a \<open>]\<close> somewhere after it, and the lazy \<open>.*?\<close> ends it at the
  first such \<open>]\<close>. If the first \<open>[\<close> has no \<open>]\<close> after it, no later one has.
\<close>

definition re_search_array :: "ustr \<Rightarrow> ustr option" where
  "re_search_array response_text =
     (case dropWhile (\<lambda>c. c \<noteq> 0x5B) response_text of
        [] \<Rightarrow> None
      | c # after \<Rightarrow>
          (let body = takeWhile (\<lambda>c. c \<noteq> 0x5D) after
           in if length body = length after then None else Some (c # body @ [0x5D])))"

definition ai_reason :: "json \<Rightarrow> fstr" where
  "ai_reason sc = [Lit msg_ai_eval, Str sc, Lit msg_close]"

text \<open>
  One pass of the standardising loop. The default of \<open>eval_result.get('keep', score >= 7)\<close>
  is computed before the call, whether the key is present or not.
\<close>

definition standardize_item :: "json \<Rightarrow> nat \<Rightarrow> py_error + evaluation" where
  "standardize_item evaluations i =
     ebind (py_len evaluations) (\<lambda>l.
     if i < l then
       ebind (getitem_int evaluations i) (\<lambda>eval_result.
       ebind (dict_get eval_result key_score (JInt 7)) (\<lambda>sc.
       ebind (py_ge sc 7) (\<lambda>dflt.
       ebind (dict_get eval_result key_keep (JBool dflt)) (\<lambda>keep.
       Inr \<lparr>e_score = Some sc, e_keep = Some keep, e_reason = Some (ai_reason sc)\<rparr>))))
     else
       Inr \<lparr>e_score = Some (JInt 7), e_keep = Some (JBool True),
            e_reason = Some (ai_reason (JInt 7))\<rparr>)"

fun standardize :: "json \<Rightarrow> nat list \<Rightarrow> py_error + evaluation list" where
  "standardize evaluations [] = Inr []"
| "standardize evaluations (i # rest) =
     ebind (standardize_item evaluations i) (\<lambda>r.
     ebind (standardize evaluations rest) (\<lambda>rs. Inr (r # rs)))"

definition default_evaluations :: "nat \<Rightarrow> json" where
  "default_evaluations entry_count =
     JArr (replicate entry_count (JObj [(key_score, JInt 7), (key_keep, JBool True)]))"

text \<open>
  \<open>json.loads\<close> is the parameter \<open>loads\<close>: it returns the decoded value or raises.
\<close>

definition parse_ai_response ::
  "(ustr \<Rightarrow> py_error + json) \<Rightarrow> ustr \<Rightarrow> nat \<Rightarrow> evaluation list" where
  "parse_ai_response loads response_text entry_count =
     (case ebind (case re_search_array response_text of
                    Some json_match \<Rightarrow> loads json_match
                  | None \<Rightarrow> Inr (default_evaluations entry_count))
                 (\<lambda>evaluations. standardize evaluations [0..<entry_count]) of
        Inr standardized_results \<Rightarrow> standardized_results
      | Inl e \<Rightarrow>
          replicate entry_count
            \<lparr>e_score = Some (JInt 7), e_keep = Some (JBool True),
             e_reason = Some [Lit msg_parse_failed, Exc e]\<rparr>)"

subsection \<open>evaluate_batch\<close>

text \<open>
  The extraction inside the first loop: \<open>None\<close> when the entry is skipped, by
  \<open>continue\<close> or by the \<open>except\<close> clause.
\<close>

definition extract_texts :: "json \<Rightarrow> (json \<times> json) option" where
  "extract_texts entry =
     (case ebind (dict_get entry key_contents (JArr [])) (\<lambda>contents.
           ebind (py_len contents) (\<lambda>n.
           if n < 2 then Inr None
           else
             ebind (turn_text contents 0) (\<lambda>question.
             ebind (turn_text contents 1) (\<lambda>answer.
             Inr (Some (question, answer)))))) of
        Inr r \<Rightarrow> r
      | Inl e \<Rightarrow> None)"

definition valid_entries :: "(nat \<times> json) list \<Rightarrow> (nat \<times> json) list" where
  "valid_entries entries = filter (\<lambda>(original_index, entry). extract_texts entry \<noteq> None) entries"

definition entries_data :: "(nat \<times> json) list \<Rightarrow> (json \<times> json) list" where
  "entries_data entries = List.map_filter (\<lambda>(original_index, entry). extract_texts entry) entries"

text \<open>The loop that zips the evaluations back to the original indices.\<close>

fun build_results ::
  "nat \<Rightarrow> evaluation list \<Rightarrow> nat \<Rightarrow> (nat \<times> json) list \<Rightarrow> py_error + (nat \<times> evaluation) list"
  where
  "build_results batch_id evaluations i [] = Inr []"
| "build_results batch_id evaluations i ((original_index, entry) # rest) =
     (if i < length evaluations then
        (case e_score (evaluations ! i) of
           None \<Rightarrow> Inl KeyError
         | Some sc \<Rightarrow>
             ebind (build_results batch_id evaluations (i + 1) rest) (\<lambda>results.
             Inr ((original_index,
                   (evaluations ! i)\<lparr>e_reason :=
                      Some [Lit msg_ai_batch, Str (JInt (int batch_id)), Lit msg_score_open,
                            Str sc, Lit msg_close]\<rparr>) # results)))
      else Inl IndexError)"

definition batch_failure :: "nat \<Rightarrow> py_error \<Rightarrow> evaluation" where
  "batch_failure batch_id e =
     \<lparr>e_score = Some (JInt 6), e_keep = Some (JBool True),
      e_reason = Some [Lit msg_eval_failed, Str (JInt (int batch_id)), Lit msg_colon, Exc e]\<rparr>"

definition format_failure :: evaluation where
  "format_failure =
     \<lparr>e_score = Some (JInt 5), e_keep = Some (JBool True),
      e_reason = Some [Lit msg_format_error]\<rparr>"

text \<open>
  \<open>generate_content\<close> of the injected manager is the parameter \<open>gen\<close>: the response
  text, or the exception it raises. The second component of the result is the list of
  prompts sent to it.
\<close>

definition evaluate_batch ::
  "(fstr \<Rightarrow> py_error + ustr) \<Rightarrow> (ustr \<Rightarrow> py_error + json) \<Rightarrow> (nat \<times> json) list \<Rightarrow> nat \<Rightarrow>
     (nat \<times> evaluation) list \<times> fstr list" where
  "evaluate_batch gen loads entries batch_id =
     (if entries = [] then ([], [])
      else if entries_data entries = [] then
        (map (\<lambda>(idx, entry). (idx, format_failure)) entries, [])
      else
        (case create_evaluation_prompt (entries_data entries) of
           Inl e \<Rightarrow> (map (\<lambda>(idx, entry). (idx, batch_failure batch_id e)) (valid_entries entries), [])
         | Inr prompt \<Rightarrow>
             (case gen prompt of
                Inl e \<Rightarrow>
                  (map (\<lambda>(idx, entry). (idx, batch_failure batch_id e)) (valid_entries entries),
                   [prompt])
              | Inr response_text \<Rightarrow>
                  (let evaluations =
                         parse_ai_response loads response_text (length (valid_entries entries))
                   in case build_results batch_id evaluations 0 (valid_entries entries) of
                        Inr results \<Rightarrow> (results, [prompt])
                      | Inl e \<Rightarrow>
                          (map (\<lambda>(idx, entry). (idx, batch_failure batch_id e))
                             (valid_entries entries),
                           [prompt])))))"

subsection \<open>apply_rule_filtering\<close>

fun rule_loop :: "nat \<Rightarrow> json list \<Rightarrow> (nat \<times> json) list \<times> FilterResult list" where
  "rule_loop idx [] = ([], [])"
| "rule_loop idx (entry # rest) =
     (case validate_entry entry of
        (is_valid, why, st) \<Rightarrow>
          (case rule_loop (idx + 1) rest of
             (passed_entries, all_results) \<Rightarrow>
               ((if is_valid then [(idx, entry)] else []) @ passed_entries,
                \<lparr>index = idx, is_kept = JBool is_valid,
                 score = JInt (if \<not> is_valid then 0 else 5), reason = why,
                 stage = ''rule_filter'', stats = st\<rparr> # all_results)))"

text \<open>
  After the loop, \<open>pass_rate = len(passed_entries) / len(data_entries) * 100\<close> divides by
  the number of entries.
\<close>

definition apply_rule_filtering ::
  "json list \<Rightarrow> py_error + (nat \<times> json) list \<times> FilterResult list" where
  "apply_rule_filtering data_entries =
     (case rule_loop 0 data_entries of
        (passed_entries, all_results) \<Rightarrow>
          if length data_entries = 0 then Inl ZeroDivisionError
          else Inr (passed_entries, all_results))"

subsection \<open>apply_ai_evaluation\<close>

text \<open>
  \<open>[passed_entries[i:i + batch_size] for i in range(0, len(passed_entries), batch_size)]\<close>:
  \<open>range\<close> raises \<open>ValueError\<close> for a zero step and is empty for a negative one.
\<close>

definition make_batches :: "(nat \<times> json) list \<Rightarrow> int \<Rightarrow> py_error + (nat \<times> json) list list" where
  "make_batches passed_entries bs =
     (if bs = 0 then Inl ValueError
      else if bs < 0 then Inr []
      else Inr (map (\<lambda>k. take (nat bs) (drop (k * nat bs) passed_entries))
                  [0..<(length passed_entries + nat bs - 1) div nat bs]))"

definition store_results ::
  "(nat \<rightharpoonup> evaluation) \<Rightarrow> (nat \<times> evaluation) list \<Rightarrow> (nat \<rightharpoonup> evaluation)" where
  "store_results all_evaluations batch_results =
     fold (\<lambda>(original_index, ev) m. m(original_index \<mapsto> ev)) batch_results all_evaluations"

definition future_failure :: "nat \<Rightarrow> evaluation" where
  "future_failure batch_id =
     \<lparr>e_score = Some (JInt 6), e_keep = Some (JBool True),
      e_reason = Some [Lit msg_batch, Str (JInt (int batch_id)), Lit msg_processing_failed]\<rparr>"

text \<open>
  One pass of the \<open>as_completed\<close> loop, for the future of batch \<open>batch_id\<close>. A worker is
  what a submitted task does: the value of the future (a result list, or the exception
  it raised) and the prompts it sent.
\<close>

type_synonym worker =
  "(nat \<times> json) list \<Rightarrow> nat \<Rightarrow> (py_error + (nat \<times> evaluation) list) \<times> fstr list"

definition collect_future ::
  "worker \<Rightarrow> (nat \<times> json) list list \<Rightarrow> nat \<Rightarrow>
     (nat \<rightharpoonup> evaluation) \<times> fstr list \<Rightarrow> (nat \<rightharpoonup> evaluation) \<times> fstr list" where
  "collect_future work batches batch_id acc =
     (case acc of
        (all_evaluations, calls) \<Rightarrow>
          (case work (batches ! batch_id) batch_id of
             (Inr batch_results, sent) \<Rightarrow>
               (store_results all_evaluations batch_results, calls @ sent)
           | (Inl e, sent) \<Rightarrow>
               (store_results all_evaluations
                  (map (\<lambda>(original_index, entry). (original_index, future_failure batch_id))
                     (batches ! batch_id)),
                calls @ sent)))"

text \<open>
  The order in which the futures complete is not determined by the program: it is the
  parameter \<open>sched\<close>, which rearranges the submitted batch identifiers. The executor
  refuses a pool of no workers with \<open>ValueError\<close>.
\<close>

definition apply_ai_evaluation ::
  "worker \<Rightarrow> (nat list \<Rightarrow> nat list) \<Rightarrow> (nat \<times> json) list \<Rightarrow> ProcessingConfig \<Rightarrow>
     py_error + (nat \<rightharpoonup> evaluation) \<times> fstr list" where
  "apply_ai_evaluation work sched passed_entries config =
     (if passed_entries = [] then Inr (Map.empty, [])
      else
        ebind (make_batches passed_entries (batch_size config)) (\<lambda>batches.
        if max_workers config \<le> 0 then Inl ValueError
        else Inr (fold (collect_future work batches) (sched [0..<length batches])
                    (Map.empty, []))))"

definition batch_worker ::
  "(fstr \<Rightarrow> py_error + ustr) \<Rightarrow> (ustr \<Rightarrow> py_error + json) \<Rightarrow> worker" where
  "batch_worker gen loads batch batch_id =
     (case evaluate_batch gen loads batch batch_id of (results, sent) \<Rightarrow> (Inr results, sent))"

subsection \<open>merge_results\<close>

definition not_evaluated :: evaluation where
  "not_evaluated =
     \<lparr>e_score = Some (JInt 5), e_keep = Some (JBool True),
      e_reason = Some [Lit msg_not_evaluated]\<rparr>"

text \<open>
  \<open>ai_evaluation.get('keep', True) and ai_evaluation.get('score', 5) >= config.min_score\<close>:
  a false \<open>keep\<close> is the value of the conjunction and the comparison is not made.
\<close>

definition final_is_kept :: "evaluation \<Rightarrow> ProcessingConfig \<Rightarrow> py_error + json" where
  "final_is_kept ai_evaluation config =
     (let keep = (case e_keep ai_evaluation of None \<Rightarrow> JBool True | Some k \<Rightarrow> k)
      in if truthy keep then
           ebind (py_ge (case e_score ai_evaluation of None \<Rightarrow> JInt 5 | Some sc \<Rightarrow> sc)
                    (min_score config))
             (\<lambda>b. Inr (JBool b))
         else Inr keep)"

definition final_result ::
  "nat \<Rightarrow> FilterResult \<Rightarrow> evaluation \<Rightarrow> json \<Rightarrow> FilterResult" where
  "final_result idx rule_result ai_evaluation kept =
     \<lparr>index = idx, is_kept = kept,
      score = (case e_score ai_evaluation of None \<Rightarrow> JInt 5 | Some sc \<Rightarrow> sc),
      reason = (case e_reason ai_evaluation of None \<Rightarrow> [] | Some r \<Rightarrow> r),
      stage = ''ai_evaluation'', stats = stats rule_result\<rparr>"

fun merge_loop ::
  "FilterResult list \<Rightarrow> (nat \<rightharpoonup> evaluation) \<Rightarrow> ProcessingConfig \<Rightarrow> nat \<Rightarrow> json list \<Rightarrow>
     FilterResult list \<times> FilterResult list \<Rightarrow> py_error + FilterResult list \<times> FilterResult list"
  where
  "merge_loop rule_results ai_evaluations config idx [] acc = Inr acc"
| "merge_loop rule_results ai_evaluations config idx (entry # rest)
     (high_quality_results, low_quality_results) =
     (if idx < length rule_results then
        (let rule_result = rule_results ! idx
         in if \<not> truthy (is_kept rule_result) then
              merge_loop rule_results ai_evaluations config (idx + 1) rest
                (high_quality_results, low_quality_results @ [rule_result])
            else
              (let ai_evaluation =
                     (case ai_evaluations idx of None \<Rightarrow> not_evaluated | Some ev \<Rightarrow> ev)
               in ebind (final_is_kept ai_evaluation config) (\<lambda>kept.
                  if truthy kept then
                    merge_loop rule_results ai_evaluations config (idx + 1) rest
                      (high_quality_results @ [final_result idx rule_result ai_evaluation kept],
                       low_quality_results)
                  else
                    merge_loop rule_results ai_evaluations config (idx + 1) rest
                      (high_quality_results,
                       low_quality_results @ [final_result idx rule_result ai_evaluation kept]))))
      else Inl IndexError)"

definition merge_results ::
  "json list \<Rightarrow> FilterResult list \<Rightarrow> (nat \<rightharpoonup> evaluation) \<Rightarrow> ProcessingConfig \<Rightarrow>
     py_error + FilterResult list \<times> FilterResult list" where
  "merge_results data_entries rule_results ai_evaluations config =
     merge_loop rule_results ai_evaluations config 0 data_entries ([], [])"

subsection \<open>filter_data\<close>

text \<open>
  The pipeline from the loaded entries to the merged partitions (loading, saving and
  reporting are file operations). The outcome is an exception that leaves \<open>filter_data\<close>,
  the early \<open>return\<close> after the report that no entry passed the rules, or the two
  partitions; with it comes the list of prompts sent to the judgment service.
\<close>

datatype outcome =
    Aborted py_error
  | NoRulePassed
  | Merged "FilterResult list" "FilterResult list"

definition filter_data ::
  "(fstr \<Rightarrow> py_error + ustr) \<Rightarrow> (ustr \<Rightarrow> py_error + json) \<Rightarrow> (nat list \<Rightarrow> nat list) \<Rightarrow>
     json list \<Rightarrow> ProcessingConfig \<Rightarrow> outcome \<times> fstr list" where
  "filter_data gen loads sched data_entries config =
     (case apply_rule_filtering data_entries of
        Inl e \<Rightarrow> (Aborted e, [])
      | Inr (passed_entries, rule_results) \<Rightarrow>
          if passed_entries = [] then (NoRulePassed, [])
          else
            (case apply_ai_evaluation (batch_worker gen loads) sched passed_entries config of
               Inl e \<Rightarrow> (Aborted e, [])
             | Inr (ai_evaluations, calls) \<Rightarrow>
                 (case merge_results data_entries rule_results ai_evaluations config of
                    Inl e \<Rightarrow> (Aborted e, calls)
                  | Inr (high_quality_results, low_quality_results) \<Rightarrow>
                      (Merged high_quality_results low_quality_results, calls))))"

section \<open>Notions of the specification\<close>

subsection \<open>Records and the acceptance policy\<close>

text \<open>
  The minimum shape of a record: a dict whose \<open>contents\<close> is a list of at least two
  turns, each a dict whose \<open>parts\<close> is a list starting with a dict that holds a string
  under \<open>text\<close>. \<open>entry_texts\<close> reads the question and the answer off a record of
  that shape and is \<open>None\<close> on every other value.
\<close>

definition turn_string :: "json \<Rightarrow> ustr option" where
  "turn_string turn =
     (case turn of
        JObj kvs \<Rightarrow>
          (case map_of kvs key_parts of
             Some (JArr (JObj pkvs # rest)) \<Rightarrow>
               (case map_of pkvs key_text of Some (JStr s) \<Rightarrow> Some s | _ \<Rightarrow> None)
           | _ \<Rightarrow> None)
      | _ \<Rightarrow> None)"

definition entry_texts :: "json \<Rightarrow> (ustr \<times> ustr) option" where
  "entry_texts entry =
     (case entry of
        JObj kvs \<Rightarrow>
          (case map_of kvs key_contents of
             Some (JArr (t0 # t1 # rest)) \<Rightarrow>
               (case (turn_string t0, turn_string t1) of
                  (Some q, Some a) \<Rightarrow> Some (q, a)
                | _ \<Rightarrow> None)
           | _ \<Rightarrow> None)
      | _ \<Rightarrow> None)"

text \<open>
  The four checks beside domain relevance, as the specification words them, and the
  number of them that a question and an answer fail.
\<close>

definition question_length_ok :: "ustr \<Rightarrow> bool" where
  "question_length_ok q \<longleftrightarrow> 8 \<le> length q \<and> length q \<le> 120"

definition answer_length_ok :: "ustr \<Rightarrow> bool" where
  "answer_length_ok a \<longleftrightarrow> 30 \<le> length a \<and> length a \<le> 1200"

definition has_marker :: "ustr \<Rightarrow> bool" where
  "has_marker q \<longleftrightarrow> 0xFF1F \<in> set q \<or> 0x3F \<in> set q"

definition answer_content_ok :: "ustr \<Rightarrow> bool" where
  "answer_content_ok a \<longleftrightarrow> 20 \<le> length (strip a)"

definition domain_relevant :: "ustr \<Rightarrow> ustr \<Rightarrow> bool" where
  "domain_relevant q a \<longleftrightarrow> (\<exists>kw \<in> set HOTEL_KEYWORDS. contains (q @ a) kw)"

definition failed_checks :: "ustr \<Rightarrow> ustr \<Rightarrow> nat" where
  "failed_checks q a =
     length (filter Not [question_length_ok q, answer_length_ok a, has_marker q,
                         answer_content_ok a])"

text \<open>
The rule-stage result of the entry at position \<open>i\<close>.
\<close>

definition rule_result_of :: "nat \<Rightarrow> json \<Rightarrow> FilterResult" where
  "rule_result_of i entry =
     \<lparr>index = i, is_kept = JBool (fst (validate_entry entry)),
      score = JInt (if fst (validate_entry entry) then 5 else 0),
      reason = fst (snd (validate_entry entry)), stage = ''rule_filter'',
      stats = snd (snd (validate_entry entry))\<rparr>"

subsection \<open>Evaluations and the merge\<close>

text \<open>
  The numbers of Python (\<open>int\<close>, \<open>bool\<close>, \<open>float\<close>) are the values that can be
  compared with \<open>min_score\<close>. The evaluation of an index is the one stored in the
  mapping or the neutral default; it is accepted when its \<open>keep\<close> is true and its
  score is at least \<open>min_score\<close>.
\<close>

fun is_number :: "json \<Rightarrow> bool" where
  "is_number (JInt n) = True"
| "is_number (JBool b) = True"
| "is_number (JFloat f) = True"
| "is_number _ = False"

definition numeric_scores :: "(nat \<rightharpoonup> evaluation) \<Rightarrow> bool" where
  "numeric_scores m \<longleftrightarrow> (\<forall>i ev sc. m i = Some ev \<and> e_score ev = Some sc \<longrightarrow> is_number sc)"

definition evaluation_of :: "(nat \<rightharpoonup> evaluation) \<Rightarrow> nat \<Rightarrow> evaluation" where
  "evaluation_of m i = (case m i of None \<Rightarrow> not_evaluated | Some ev \<Rightarrow> ev)"

definition keep_of :: "evaluation \<Rightarrow> json" where
  "keep_of ev = (case e_keep ev of None \<Rightarrow> JBool True | Some k \<Rightarrow> k)"

definition score_of :: "evaluation \<Rightarrow> json" where
  "score_of ev = (case e_score ev of None \<Rightarrow> JInt 5 | Some sc \<Rightarrow> sc)"

definition accepts :: "evaluation \<Rightarrow> ProcessingConfig \<Rightarrow> bool" where
  "accepts ev config \<longleftrightarrow> truthy (keep_of ev) \<and> py_ge (score_of ev) (min_score config) = Inr True"

text \<open>
  What one pass of the merge loop makes of index \<open>i\<close>: with the exception the
  comparison may raise (\<open>merged_entry\<close>), and as a total function for number scores
  (\<open>merged_total\<close>).
\<close>

definition merged_entry ::
  "FilterResult list \<Rightarrow> (nat \<rightharpoonup> evaluation) \<Rightarrow> ProcessingConfig \<Rightarrow> nat \<Rightarrow> py_error + FilterResult" where
  "merged_entry rr m config i =
     (if \<not> truthy (is_kept (rr ! i)) then Inr (rr ! i)
      else ebind (final_is_kept (evaluation_of m i) config)
             (\<lambda>kept. Inr (final_result i (rr ! i) (evaluation_of m i) kept)))"

definition kept_value :: "evaluation \<Rightarrow> ProcessingConfig \<Rightarrow> json" where
  "kept_value ev config = (if truthy (keep_of ev) then JBool (accepts ev config) else keep_of ev)"

definition merged_total ::
  "FilterResult list \<Rightarrow> (nat \<rightharpoonup> evaluation) \<Rightarrow> ProcessingConfig \<Rightarrow> nat \<Rightarrow> FilterResult" where
  "merged_total rr m config i =
     (if \<not> truthy (is_kept (rr ! i)) then rr ! i
      else final_result i (rr ! i) (evaluation_of m i) (kept_value (evaluation_of m i) config))"

subsection \<open>Parsed responses\<close>

text \<open>
  The item every fallback of the parser produces, the score a decoded object resolves to,
  and the decoded items on which the standardising loop does not raise.
\<close>

definition fallback_item :: "fstr \<Rightarrow> evaluation" where
  "fallback_item r = \<lparr>e_score = Some (JInt 7), e_keep = Some (JBool True), e_reason = Some r\<rparr>"

definition raw_score :: "(ustr \<times> json) list \<Rightarrow> json" where
  "raw_score kvs = (case map_of kvs key_score of None \<Rightarrow> JInt 7 | Some v \<Rightarrow> v)"

definition item_ok :: "json \<Rightarrow> bool" where
  "item_ok item = (case item of JObj kvs \<Rightarrow> is_number (raw_score kvs) | _ \<Rightarrow> False)"

text \<open>
  The exception the standardising loop raises on a decoded item: \<open>AttributeError\<close>
  when the item is not an object (it has no \<open>get\<close>), \<open>TypeError\<close> when its score
  cannot be compared with 7.
\<close>

definition item_error :: "json \<Rightarrow> py_error option" where
  "item_error item =
     (case item of
        JObj kvs \<Rightarrow> (if is_number (raw_score kvs) then None else Some TypeError)
      | _ \<Rightarrow> Some AttributeError)"

subsection \<open>Collected batches\<close>

text \<open>
The bindings that the future of batch \<open>bid\<close> adds to the evaluation mapping.
\<close>

definition batch_updates ::
  "worker \<Rightarrow> (nat \<times> json) list list \<Rightarrow> nat \<Rightarrow> (nat \<rightharpoonup> evaluation)" where
  "batch_updates work batches bid =
     (case fst (work (batches ! bid) bid) of
        Inr rs \<Rightarrow> map_of (rev rs)
      | Inl e \<Rightarrow> map_of (rev (map (\<lambda>(oi, entry). (oi, future_failure bid)) (batches ! bid))))"

subsection \<open>Example inputs\<close>

text \<open>
  A record of the minimum shape, and the texts of the examples: a breakfast question
  without question mark (12 characters) with the answer of the specification's first
  scenario (58 characters), and a question that mentions towels with a three-character
  answer.
\<close>

definition qa_entry :: "ustr \<Rightarrow> ustr \<Rightarrow> json" where
  "qa_entry q a =
     JObj [(key_contents,
            JArr [JObj [(key_parts, JArr [JObj [(key_text, JStr q)]])],
                  JObj [(key_parts, JArr [JObj [(key_text, JStr a)]])]])]"

definition breakfast_question_unmarked :: ustr where
  "breakfast_question_unmarked =
     [0x9152, 0x5E97, 0x7684, 0x65E9, 0x9910, 0x65F6, 0x95F4, 0x662F, 0x4EC0, 0x4E48,
      0x65F6, 0x5019]"

definition breakfast_answer :: ustr where
  "breakfast_answer =
     [0x6211, 0x4EEC, 0x9152, 0x5E97, 0x7684, 0x65E9, 0x9910, 0x4F9B, 0x5E94, 0x65F6,
      0x95F4, 0x662F, 0x6BCF, 0x5929, 0x65E9, 0x4E0A, 0x36, 0x3A, 0x33, 0x30,
      0x5230, 0x31, 0x30, 0x3A, 0x30, 0x30, 0xFF0C, 0x5468, 0x672B, 0x5EF6,
      0x957F, 0x5230, 0x31, 0x30, 0x3A, 0x33, 0x30, 0x3002, 0x65E9, 0x9910,
      0x5728, 0x4E00, 0x697C, 0x9910, 0x5385, 0x63D0, 0x4F9B, 0xFF0C, 0x5305, 0x542B,
      0x4E2D, 0x897F, 0x5F0F, 0x5404, 0x79CD, 0x9009, 0x62E9, 0x3002]"

definition towel_question :: ustr where
  "towel_question = [0x623F, 0x95F4, 0x91CC, 0x6709, 0x6BDB, 0x5DFE, 0x5417, 0xFF1F]"

definition towel_answer :: ustr where
  "towel_answer = [0x6709, 0x7684, 0x3002]"

definition towel_entry :: json where
  "towel_entry = qa_entry towel_question towel_answer"

definition example_entries :: "json list" where
  "example_entries =
     [qa_entry breakfast_question_unmarked breakfast_answer,
      qa_entry towel_question towel_answer]"

definition three_entries :: "json list" where
  "three_entries = replicate 3 (qa_entry breakfast_question_unmarked breakfast_answer)"

definition mixed_batch :: "(nat \<times> json) list" where
  "mixed_batch = [(0, towel_entry), (1, JObj [])]"

text \<open>
Rule-stage results and evaluations for three entries, and configurations.
\<close>

definition example_rule_results :: "FilterResult list" where
  "example_rule_results =
     [\<lparr>index = 0, is_kept = JBool False, score = JInt 0, reason = [Lit msg_not_hotel_related],
       stage = ''rule_filter'', stats = zero_stats\<rparr>,
      \<lparr>index = 1, is_kept = JBool True, score = JInt 5, reason = [Lit msg_passed],
       stage = ''rule_filter'', stats = zero_stats\<rparr>,
      \<lparr>index = 2, is_kept = JBool True, score = JInt 5, reason = [Lit msg_passed],
       stage = ''rule_filter'', stats = zero_stats\<rparr>]"

definition example_evaluations :: "nat \<rightharpoonup> evaluation" where
  "example_evaluations =
     [1 \<mapsto> \<lparr>e_score = Some (JInt 8), e_keep = Some (JBool True),
                  e_reason = Some (ai_reason (JInt 8))\<rparr>]"

definition default_config :: ProcessingConfig where
  "default_config = \<lparr>min_score = 7, batch_size = 12, max_workers = 6, sample_size = None\<rparr>"

definition one_worker_config :: ProcessingConfig where
  "one_worker_config = \<lparr>min_score = 7, batch_size = 1, max_workers = 1, sample_size = None\<rparr>"

definition eight_worker_config :: ProcessingConfig where
  "eight_worker_config = \<lparr>min_score = 7, batch_size = 1, max_workers = 8, sample_size = None\<rparr>"

text \<open>
  The response \<open>[{"score":8,"keep":true},{"score":3,"keep":false}]\<close> with the value it
  decodes to, the response \<open>[x]\<close>, which is not JSON, and a decoder that agrees with
  \<open>json.loads\<close> on these two texts.
\<close>

definition example_response :: ustr where
  "example_response =
     [0x5B, 0x7B, 0x22, 0x73, 0x63, 0x6F, 0x72, 0x65, 0x22, 0x3A,
      0x38, 0x2C, 0x22, 0x6B, 0x65, 0x65, 0x70, 0x22, 0x3A, 0x74,
      0x72, 0x75, 0x65, 0x7D, 0x2C, 0x7B, 0x22, 0x73, 0x63, 0x6F,
      0x72, 0x65, 0x22, 0x3A, 0x33, 0x2C, 0x22, 0x6B, 0x65, 0x65,
      0x70, 0x22, 0x3A, 0x66, 0x61, 0x6C, 0x73, 0x65, 0x7D, 0x5D]"

definition example_array :: json where
  "example_array =
     JArr [JObj [(key_score, JInt 8), (key_keep, JBool True)],
           JObj [(key_score, JInt 3), (key_keep, JBool False)]]"

definition garbage_response :: ustr where
  "garbage_response = [0x5B, 0x78, 0x5D]"

definition expecting_value :: ustr where
  "expecting_value =
     [0x45, 0x78, 0x70, 0x65, 0x63, 0x74, 0x69, 0x6E, 0x67, 0x20, 0x76, 0x61, 0x6C, 0x75, 0x65]"

definition sample_loads :: "ustr \<Rightarrow> py_error + json" where
  "sample_loads s = (if s = example_response then Inr example_array else Inl (Raised expecting_value))"

text \<open>
  The response \<open>[8,9]\<close>, a JSON array whose items are not objects, with a decoder that
  agrees with \<open>json.loads\<close> on it.
\<close>

definition numbers_response :: ustr where
  "numbers_response = [0x5B, 0x38, 0x2C, 0x39, 0x5D]"

definition numbers_loads :: "ustr \<Rightarrow> py_error + json" where
  "numbers_loads s =
     (if s = numbers_response then Inr (JArr [JInt 8, JInt 9]) else Inl (Raised expecting_value))"

text \<open>
  A collaborator that raises on every call, and one that always answers \<open>[x]\<close>.
\<close>

definition service_down :: ustr where
  "service_down = [0x74, 0x69, 0x6D, 0x65, 0x6F, 0x75, 0x74]"

definition failing_gen :: "fstr \<Rightarrow> py_error + ustr" where
  "failing_gen prompt = Inl (Raised service_down)"

definition garbage_gen :: "fstr \<Rightarrow> py_error + ustr" where
  "garbage_gen prompt = Inr garbage_response"

section \<open>Verified properties\<close>

subsection \<open>The rule validator\<close>

lemma turn_text_string:
  "turn_text (JArr ts) i = Inr (JStr s) \<longleftrightarrow> i < length ts \<and> turn_string (ts ! i) = Some s"
  by (auto simp: turn_text_def turn_string_def ebind_def
      split: json.splits option.splits list.splits sum.splits if_splits)

lemma contains_single: "contains s [c] \<longleftrightarrow> c \<in> set s"
  by (induction s) auto

lemma check_texts_valid:
  "fst (check_texts q a) \<longleftrightarrow> domain_relevant q a \<and> failed_checks q a \<le> 1"
  by (auto simp: check_texts_def Let_def domain_relevant_def failed_checks_def
       question_length_ok_def answer_length_ok_def has_marker_def answer_content_ok_def
       contains_single MIN_QUESTION_LENGTH_def MAX_QUESTION_LENGTH_def MIN_ANSWER_LENGTH_def
       MAX_ANSWER_LENGTH_def MIN_ANSWER_CONTENT_LENGTH_def filter_empty_conv)

lemma turn_text_Inr:
  "turn_text c i = Inr v \<Longrightarrow> \<exists>ts. c = JArr ts \<and> i < length ts"
  by (cases c) (auto simp: turn_text_def ebind_def split: if_splits)

lemma validate_entry_texts:
  assumes "entry_texts entry = Some (q, a)"
  shows "validate_entry entry = check_texts q a"
proof -
  from assms obtain kvs t0 t1 rest where
    e: "entry = JObj kvs" and c: "map_of kvs key_contents = Some (JArr (t0 # t1 # rest))"
    and q: "turn_string t0 = Some q" and a: "turn_string t1 = Some a"
    by (auto simp: entry_texts_def split: json.splits option.splits list.splits)
  have "turn_text (JArr (t0 # t1 # rest)) 0 = Inr (JStr q)"
    using q by (simp add: turn_text_string)
  moreover have "turn_text (JArr (t0 # t1 # rest)) 1 = Inr (JStr a)"
    using a by (simp add: turn_text_string)
  ultimately show ?thesis
    using e c by (simp add: validate_entry_def validate_entry_try_def ebind_def)
qed

lemma validate_entry_try_Inr:
  assumes "validate_entry_try entry = Inr (True, r, s)"
  shows "\<exists>q a. entry_texts entry = Some (q, a)"
proof -
  from assms obtain kvs where e: "entry = JObj kvs"
    by (cases entry) (auto simp: validate_entry_try_def ebind_def)
  define contents where "contents = (case map_of kvs key_contents of None \<Rightarrow> JArr [] | Some v \<Rightarrow> v)"
  from assms e obtain question answer where
    tq: "turn_text contents 0 = Inr question" and ta: "turn_text contents 1 = Inr answer"
    and rest: "(case answer of
          JStr a \<Rightarrow> (case question of JStr q \<Rightarrow> Inr (check_texts q a) | _ \<Rightarrow> Inl TypeError)
        | _ \<Rightarrow> Inl AttributeError) = Inr (True, r, s)"
    by (auto simp: validate_entry_try_def ebind_def contents_def split: sum.splits if_splits)
  from rest obtain q a where qa: "question = JStr q" "answer = JStr a"
    by (auto split: json.splits)
  from ta obtain ts where ts: "contents = JArr ts" "1 < length ts"
    by (auto dest: turn_text_Inr)
  then obtain t0 t1 more where ts': "ts = t0 # t1 # more"
    by (cases ts; cases "tl ts") auto
  have "turn_string t0 = Some q" "turn_string t1 = Some a"
    using tq ta qa ts ts' by (simp_all add: turn_text_string)
  moreover have "map_of kvs key_contents = Some (JArr (t0 # t1 # more))"
    using ts ts' by (auto simp: contents_def split: option.splits)
  ultimately show ?thesis
    using e by (simp add: entry_texts_def)
qed

lemma validate_entry_accepts:
  "fst (validate_entry entry) \<longleftrightarrow>
     (\<exists>q a. entry_texts entry = Some (q, a) \<and> domain_relevant q a \<and> failed_checks q a \<le> 1)"
proof
  assume v: "fst (validate_entry entry)"
  then obtain r s where "validate_entry_try entry = Inr (True, r, s)"
    by (auto simp: validate_entry_def split: sum.splits)
  then obtain q a where qa: "entry_texts entry = Some (q, a)"
    using validate_entry_try_Inr by blast
  with v show "\<exists>q a. entry_texts entry = Some (q, a) \<and> domain_relevant q a \<and> failed_checks q a \<le> 1"
    by (auto simp: validate_entry_texts check_texts_valid)
next
  assume "\<exists>q a. entry_texts entry = Some (q, a) \<and> domain_relevant q a \<and> failed_checks q a \<le> 1"
  then show "fst (validate_entry entry)"
    by (auto simp: validate_entry_texts check_texts_valid)
qed

text \<open>
  Claim C1. \<open>validate_entry\<close> accepts an entry exactly when the entry has a question and
  an answer text, at least one domain keyword occurs in their concatenation, and at most
  one of the four other checks (question length, answer length, question marker, trimmed
  answer length) fails. In particular an entry without a domain keyword is rejected
  whatever the other checks say, and a domain-relevant entry with exactly one failing
  check is accepted.
\<close>

theorem validate_entry_policy:
  "(fst (validate_entry entry) \<longleftrightarrow>
      (\<exists>q a. entry_texts entry = Some (q, a) \<and> domain_relevant q a \<and> failed_checks q a \<le> 1))
   \<and> (entry_texts entry = Some (q, a) \<and> \<not> domain_relevant q a \<longrightarrow> \<not> fst (validate_entry entry))
   \<and> (entry_texts entry = Some (q, a) \<and> domain_relevant q a \<and> failed_checks q a = 1 \<longrightarrow>
        fst (validate_entry entry))"
  using validate_entry_accepts [of entry] by auto

lemma entry_texts_qa_entry: "entry_texts (qa_entry q a) = Some (q, a)"
  by (simp add: entry_texts_def qa_entry_def turn_string_def)

lemma breakfast_relevant: "domain_relevant breakfast_question_unmarked breakfast_answer"
  by (simp add: domain_relevant_def HOTEL_KEYWORDS_def breakfast_question_unmarked_def
      breakfast_answer_def)

lemma breakfast_one_failure: "failed_checks breakfast_question_unmarked breakfast_answer = 1"
  by (simp add: failed_checks_def question_length_ok_def answer_length_ok_def has_marker_def
      answer_content_ok_def strip_def is_space_def breakfast_question_unmarked_def
      breakfast_answer_def)

theorem validate_entry_policy_witness:
  "entry_texts (qa_entry breakfast_question_unmarked breakfast_answer)
     = Some (breakfast_question_unmarked, breakfast_answer)
   \<and> domain_relevant breakfast_question_unmarked breakfast_answer
   \<and> failed_checks breakfast_question_unmarked breakfast_answer = 1
   \<and> fst (validate_entry (qa_entry breakfast_question_unmarked breakfast_answer))"
  using validate_entry_policy [of "qa_entry breakfast_question_unmarked breakfast_answer"
      breakfast_question_unmarked breakfast_answer]
    entry_texts_qa_entry [of breakfast_question_unmarked breakfast_answer]
    breakfast_relevant breakfast_one_failure
  by simp

lemma validate_entry_qa_entry: "validate_entry (qa_entry q a) = check_texts q a"
  by (simp add: validate_entry_texts entry_texts_qa_entry)

text \<open>
  Claim C9. The keyword list names the towel keyword (U+6BDB U+5DFE) twice, at positions
  28 and 34, so for an entry whose text mentions it the matched-keyword list of the
  statistics contains that term twice: the list is not a set of the matched terms.
\<close>

theorem towel_keyword_reported_twice:
  "hotel_keywords_found (snd (snd (validate_entry (qa_entry towel_question towel_answer))))
     = [[0x623F, 0x95F4], [0x6BDB, 0x5DFE], [0x6BDB, 0x5DFE]]
   \<and> \<not> distinct (hotel_keywords_found
          (snd (snd (validate_entry (qa_entry towel_question towel_answer)))))"
  by (simp add: validate_entry_qa_entry check_texts_def Let_def HOTEL_KEYWORDS_def
      towel_question_def towel_answer_def)

subsection \<open>The result merger\<close>

lemma merge_loop_char:
  assumes "i + length entries \<le> length rr"
    and "\<forall>k<length entries. merged_entry rr m config (i + k) = Inr (f (i + k))"
  shows "merge_loop rr m config i entries (h, l) =
           Inr (h @ filter (\<lambda>r. truthy (is_kept r)) (map f [i..<i + length entries]),
                l @ filter (\<lambda>r. \<not> truthy (is_kept r)) (map f [i..<i + length entries]))"
  using assms
proof (induction entries arbitrary: i h l)
  case Nil
  then show ?case by simp
next
  case (Cons entry rest)
  have lt: "i < length rr" using Cons.prems(1) by simp
  have here: "merged_entry rr m config i = Inr (f i)"
    using Cons.prems(2) by (metis add.right_neutral length_greater_0_conv list.distinct(1))
  have later: "\<forall>k<length rest. merged_entry rr m config (Suc i + k) = Inr (f (Suc i + k))"
    using Cons.prems(2) by (metis add_Suc_shift length_Cons not_less_eq)
  have len: "Suc i + length rest \<le> length rr" using Cons.prems(1) by simp
  have upt: "[i..<Suc (i + length rest)] = i # [Suc i..<Suc (i + length rest)]"
    by (subst upt_rec) (simp del: upt_Suc)
  note IH = Cons.IH [OF len later]
  show ?case
  proof (cases "truthy (is_kept (rr ! i))")
    case False
    with here have "f i = rr ! i" by (simp add: merged_entry_def)
    with False lt IH show ?thesis
      by (simp add: upt del: upt_Suc)
  next
    case True
    with here obtain kept where k: "final_is_kept (evaluation_of m i) config = Inr kept"
      and fi: "f i = final_result i (rr ! i) (evaluation_of m i) kept"
      by (auto simp: merged_entry_def ebind_def split: sum.splits)
    have kk: "is_kept (f i) = kept" by (simp add: fi final_result_def)
    from True lt k kk fi IH show ?thesis
      by (simp add: upt ebind_def evaluation_of_def del: upt_Suc)
  qed
qed

lemma py_ge_number: "is_number sc \<Longrightarrow> \<exists>b. py_ge sc k = Inr b"
  by (cases sc) auto

lemma final_is_kept_numeric:
  assumes "is_number (score_of ev)"
  shows "final_is_kept ev config = Inr (kept_value ev config)"
proof -
  from assms obtain b where "py_ge (score_of ev) (min_score config) = Inr b"
    using py_ge_number by blast
  then show ?thesis
    by (simp add: final_is_kept_def kept_value_def accepts_def keep_of_def score_of_def
        ebind_def Let_def)
qed

lemma numeric_score_of: "numeric_scores m \<Longrightarrow> is_number (score_of (evaluation_of m i))"
  by (auto simp: numeric_scores_def score_of_def evaluation_of_def not_evaluated_def
      split: option.splits)

lemma merged_entry_numeric:
  "numeric_scores m \<Longrightarrow> merged_entry rr m config i = Inr (merged_total rr m config i)"
  by (simp add: merged_entry_def merged_total_def final_is_kept_numeric numeric_score_of
      ebind_def)

lemma merge_results_numeric:
  assumes "length rr = length entries" and "numeric_scores m"
  shows "merge_results entries rr m config =
           Inr (filter (\<lambda>r. truthy (is_kept r)) (map (merged_total rr m config) [0..<length entries]),
                filter (\<lambda>r. \<not> truthy (is_kept r)) (map (merged_total rr m config) [0..<length entries]))"
  using merge_loop_char [of 0 entries rr m config "merged_total rr m config" "[]" "[]"] assms
  by (simp add: merge_results_def merged_entry_numeric)

lemma index_merged_total:
  "index (rr ! i) = i \<Longrightarrow> index (merged_total rr m config i) = i"
  by (simp add: merged_total_def final_result_def)

lemma map_index_filter_merged:
  assumes "\<forall>i<n. index (rr ! i) = i"
  shows "map index (filter P (map (merged_total rr m config) [0..<n]))
           = filter (\<lambda>i. P (merged_total rr m config i)) [0..<n]"
proof -
  have "map index (filter P (map (merged_total rr m config) [0..<n]))
          = map (\<lambda>i. index (merged_total rr m config i))
              (filter (\<lambda>i. P (merged_total rr m config i)) [0..<n])"
    by (simp add: filter_map comp_def)
  also have "\<dots> = map (\<lambda>i. i) (filter (\<lambda>i. P (merged_total rr m config i)) [0..<n])"
    using assms by (intro map_cong) (auto simp: index_merged_total)
  finally show ?thesis by simp
qed

text \<open>
  Claim C2. For a rule-stage result list that has one result per entry, the result at
  position \<open>i\<close> carrying index \<open>i\<close>, and an evaluation mapping whose scores are
  numbers, \<open>merge_results\<close> returns two partitions whose sizes add up to the number of
  entries, and every index below that number is the index of a result in exactly one of
  them.
\<close>

theorem merge_results_partition:
  assumes "length rule_results = length data_entries"
    and "\<forall>i<length rule_results. index (rule_results ! i) = i"
    and "numeric_scores ai_evaluations"
  shows "\<exists>high low.
           merge_results data_entries rule_results ai_evaluations config = Inr (high, low)
           \<and> length high + length low = length data_entries
           \<and> index ` set high \<union> index ` set low = {0..<length data_entries}
           \<and> index ` set high \<inter> index ` set low = {}
           \<and> distinct (map index high) \<and> distinct (map index low)"
proof -
  let ?f = "merged_total rule_results ai_evaluations config"
  let ?n = "length data_entries"
  let ?high = "filter (\<lambda>r. truthy (is_kept r)) (map ?f [0..<?n])"
  let ?low = "filter (\<lambda>r. \<not> truthy (is_kept r)) (map ?f [0..<?n])"
  have idx: "\<forall>i<?n. index (rule_results ! i) = i" using assms(1,2) by simp
  have m: "merge_results data_entries rule_results ai_evaluations config = Inr (?high, ?low)"
    using assms(1,3) by (rule merge_results_numeric)
  have len: "length ?high + length ?low = ?n"
    using sum_length_filter_compl [of "\<lambda>r. truthy (is_kept r)" "map ?f [0..<?n]"] by simp
  have h: "map index ?high = filter (\<lambda>i. truthy (is_kept (?f i))) [0..<?n]"
    using idx by (rule map_index_filter_merged)
  have l: "map index ?low = filter (\<lambda>i. \<not> truthy (is_kept (?f i))) [0..<?n]"
    using idx by (rule map_index_filter_merged)
  have hs: "index ` set ?high = {i. i < ?n \<and> truthy (is_kept (?f i))}"
    using arg_cong [OF h, of set] by (simp del: set_filter set_map add: set_map [symmetric]) auto
  have ls: "index ` set ?low = {i. i < ?n \<and> \<not> truthy (is_kept (?f i))}"
    using arg_cong [OF l, of set] by (simp del: set_filter set_map add: set_map [symmetric]) auto
  have u: "index ` set ?high \<union> index ` set ?low = {0..<?n}"
    unfolding hs ls by auto
  have i: "index ` set ?high \<inter> index ` set ?low = {}"
    unfolding hs ls by auto
  have dh: "distinct (map index ?high)" unfolding h by simp
  have dl: "distinct (map index ?low)" unfolding l by simp
  from m len u i dh dl show ?thesis by blast
qed

text \<open>The rule stage produces one result per entry, in order, with the entry's position as index.\<close>

lemma rule_loop_results:
  "length (snd (rule_loop k es)) = length es \<and>
   (\<forall>i<length es. snd (rule_loop k es) ! i = rule_result_of (k + i) (es ! i))"
proof (induction es arbitrary: k)
  case Nil
  then show ?case by simp
next
  case (Cons e es)
  have "\<forall>i<length (e # es). snd (rule_loop k (e # es)) ! i = rule_result_of (k + i) ((e # es) ! i)"
  proof (intro allI impI)
    fix i assume "i < length (e # es)"
    then show "snd (rule_loop k (e # es)) ! i = rule_result_of (k + i) ((e # es) ! i)"
      using Cons.IH [of "k + 1"]
      by (cases i) (auto simp: rule_result_of_def split: prod.splits)
  qed
  moreover have "length (snd (rule_loop k (e # es))) = length (e # es)"
    using Cons.IH [of "k + 1"] by (auto split: prod.splits)
  ultimately show ?case by blast
qed

lemma apply_rule_filtering_results:
  assumes "apply_rule_filtering es = Inr (passed, rr)"
  shows "length rr = length es" and "\<forall>i<length es. rr ! i = rule_result_of i (es ! i)"
proof -
  from assms have "rr = snd (rule_loop 0 es)"
    by (auto simp: apply_rule_filtering_def split: prod.splits if_splits)
  then show "length rr = length es" and "\<forall>i<length es. rr ! i = rule_result_of i (es ! i)"
    using rule_loop_results [of 0 es] by auto
qed

lemma index_set_filter_merged:
  assumes "\<forall>i<n. index (rr ! i) = i"
  shows "index ` set (filter P (map (merged_total rr m config) [0..<n]))
           = {i. i < n \<and> P (merged_total rr m config i)}"
proof -
  have "index ` set (filter P (map (merged_total rr m config) [0..<n]))
          = set (map index (filter P (map (merged_total rr m config) [0..<n])))"
    by simp
  also have "\<dots> = set (filter (\<lambda>i. P (merged_total rr m config i)) [0..<n])"
    using assms by (simp only: map_index_filter_merged)
  also have "\<dots> = {i. i < n \<and> P (merged_total rr m config i)}"
    by auto
  finally show ?thesis .
qed

lemma truthy_kept_value: "truthy (kept_value ev config) \<longleftrightarrow> accepts ev config"
  by (auto simp: kept_value_def accepts_def)

text \<open>
  Claim C3. After the rule stage, the merge puts an entry the rules accepted into the
  high-quality partition if its evaluation has a true \<open>keep\<close> and a score of at least
  \<open>min_score\<close>, and into the low-quality partition otherwise; an accepted entry without
  an evaluation is treated as score 5, keep true, reason "not evaluated"; an entry the
  rules rejected is in the low-quality partition with its rule-stage result, whose score
  is 0.
\<close>

theorem merge_results_placement:
  assumes "apply_rule_filtering data_entries = Inr (passed_entries, rule_results)"
    and "numeric_scores ai_evaluations"
    and "i < length data_entries"
  shows "\<exists>high low.
     merge_results data_entries rule_results ai_evaluations config = Inr (high, low) \<and>
     (fst (validate_entry (data_entries ! i)) \<longrightarrow>
        (\<exists>r. index r = i \<and> stage r = ''ai_evaluation''
              \<and> score r = score_of (evaluation_of ai_evaluations i)
              \<and> reason r = (case e_reason (evaluation_of ai_evaluations i) of
                              None \<Rightarrow> [] | Some t \<Rightarrow> t)
              \<and> stats r = stats (rule_results ! i)
              \<and> (accepts (evaluation_of ai_evaluations i) config \<longrightarrow>
                    r \<in> set high \<and> i \<notin> index ` set low)
              \<and> (\<not> accepts (evaluation_of ai_evaluations i) config \<longrightarrow>
                    r \<in> set low \<and> i \<notin> index ` set high))
        \<and> (ai_evaluations i = None \<longrightarrow>
              score_of (evaluation_of ai_evaluations i) = JInt 5
              \<and> keep_of (evaluation_of ai_evaluations i) = JBool True
              \<and> e_reason (evaluation_of ai_evaluations i) = Some [Lit msg_not_evaluated]))
     \<and> (\<not> fst (validate_entry (data_entries ! i)) \<longrightarrow>
          rule_results ! i \<in> set low \<and> i \<notin> index ` set high
          \<and> index (rule_results ! i) = i \<and> score (rule_results ! i) = JInt 0
          \<and> stage (rule_results ! i) = ''rule_filter'')"
proof -
  let ?f = "merged_total rule_results ai_evaluations config"
  let ?n = "length data_entries"
  let ?ev = "evaluation_of ai_evaluations i"
  let ?high = "filter (\<lambda>r. truthy (is_kept r)) (map ?f [0..<?n])"
  let ?low = "filter (\<lambda>r. \<not> truthy (is_kept r)) (map ?f [0..<?n])"
  have len: "length rule_results = ?n"
    and rr: "\<forall>j<?n. rule_results ! j = rule_result_of j (data_entries ! j)"
    using apply_rule_filtering_results [OF assms(1)] by auto
  have idx: "\<forall>j<?n. index (rule_results ! j) = j"
    using rr by (simp add: rule_result_of_def)
  have m: "merge_results data_entries rule_results ai_evaluations config = Inr (?high, ?low)"
    using len assms(2) by (rule merge_results_numeric)
  have hs: "index ` set ?high = {j. j < ?n \<and> truthy (is_kept (?f j))}"
    using idx by (rule index_set_filter_merged)
  have ls: "index ` set ?low = {j. j < ?n \<and> \<not> truthy (is_kept (?f j))}"
    using idx by (rule index_set_filter_merged)
  have mem: "?f i \<in> set (map ?f [0..<?n])"
    using assms(3) by simp
  have ri: "rule_results ! i = rule_result_of i (data_entries ! i)"
    using rr assms(3) by simp
  have accepted: "fst (validate_entry (data_entries ! i)) \<longrightarrow>
        (\<exists>r. index r = i \<and> stage r = ''ai_evaluation'' \<and> score r = score_of ?ev
              \<and> reason r = (case e_reason ?ev of None \<Rightarrow> [] | Some t \<Rightarrow> t)
              \<and> stats r = stats (rule_results ! i)
              \<and> (accepts ?ev config \<longrightarrow> r \<in> set ?high \<and> i \<notin> index ` set ?low)
              \<and> (\<not> accepts ?ev config \<longrightarrow> r \<in> set ?low \<and> i \<notin> index ` set ?high))"
  proof
    assume v: "fst (validate_entry (data_entries ! i))"
    then have fi: "?f i = final_result i (rule_results ! i) ?ev (kept_value ?ev config)"
      by (simp add: merged_total_def ri rule_result_of_def)
    have k: "truthy (is_kept (?f i)) \<longleftrightarrow> accepts ?ev config"
      by (simp add: fi final_result_def truthy_kept_value)
    have "index (?f i) = i" "stage (?f i) = ''ai_evaluation''" "score (?f i) = score_of ?ev"
      "reason (?f i) = (case e_reason ?ev of None \<Rightarrow> [] | Some t \<Rightarrow> t)"
      "stats (?f i) = stats (rule_results ! i)"
      by (simp_all add: fi final_result_def score_of_def)
    moreover have "accepts ?ev config \<longrightarrow> ?f i \<in> set ?high \<and> i \<notin> index ` set ?low"
      using mem k unfolding ls by simp
    moreover have "\<not> accepts ?ev config \<longrightarrow> ?f i \<in> set ?low \<and> i \<notin> index ` set ?high"
      using mem k unfolding hs by simp
    ultimately show "\<exists>r. index r = i \<and> stage r = ''ai_evaluation'' \<and> score r = score_of ?ev
              \<and> reason r = (case e_reason ?ev of None \<Rightarrow> [] | Some t \<Rightarrow> t)
              \<and> stats r = stats (rule_results ! i)
              \<and> (accepts ?ev config \<longrightarrow> r \<in> set ?high \<and> i \<notin> index ` set ?low)
              \<and> (\<not> accepts ?ev config \<longrightarrow> r \<in> set ?low \<and> i \<notin> index ` set ?high)"
      by blast
  qed
  have absent: "ai_evaluations i = None \<longrightarrow>
      score_of ?ev = JInt 5 \<and> keep_of ?ev = JBool True
      \<and> e_reason ?ev = Some [Lit msg_not_evaluated]"
    by (simp add: evaluation_of_def not_evaluated_def score_of_def keep_of_def)
  have rejected: "\<not> fst (validate_entry (data_entries ! i)) \<longrightarrow>
          rule_results ! i \<in> set ?low \<and> i \<notin> index ` set ?high
          \<and> index (rule_results ! i) = i \<and> score (rule_results ! i) = JInt 0
          \<and> stage (rule_results ! i) = ''rule_filter''"
  proof
    assume v: "\<not> fst (validate_entry (data_entries ! i))"
    then have fi: "?f i = rule_results ! i"
      by (simp add: merged_total_def ri rule_result_of_def)
    have k: "\<not> truthy (is_kept (?f i))"
      using v by (simp add: fi) (simp add: ri rule_result_of_def)
    have "rule_results ! i \<in> set ?low"
      using mem k by (simp add: fi)
    moreover have "i \<notin> index ` set ?high"
      using k unfolding hs by simp
    moreover have "index (rule_results ! i) = i" "score (rule_results ! i) = JInt 0"
      "stage (rule_results ! i) = ''rule_filter''"
      using v by (simp_all add: ri rule_result_of_def)
    ultimately show "rule_results ! i \<in> set ?low \<and> i \<notin> index ` set ?high
          \<and> index (rule_results ! i) = i \<and> score (rule_results ! i) = JInt 0
          \<and> stage (rule_results ! i) = ''rule_filter''"
      by blast
  qed
  from accepted absent rejected have
    "merge_results data_entries rule_results ai_evaluations config = Inr (?high, ?low) \<and>
     (fst (validate_entry (data_entries ! i)) \<longrightarrow>
        (\<exists>r. index r = i \<and> stage r = ''ai_evaluation'' \<and> score r = score_of ?ev
              \<and> reason r = (case e_reason ?ev of None \<Rightarrow> [] | Some t \<Rightarrow> t)
              \<and> stats r = stats (rule_results ! i)
              \<and> (accepts ?ev config \<longrightarrow> r \<in> set ?high \<and> i \<notin> index ` set ?low)
              \<and> (\<not> accepts ?ev config \<longrightarrow> r \<in> set ?low \<and> i \<notin> index ` set ?high))
        \<and> (ai_evaluations i = None \<longrightarrow>
              score_of ?ev = JInt 5 \<and> keep_of ?ev = JBool True
              \<and> e_reason ?ev = Some [Lit msg_not_evaluated]))
     \<and> (\<not> fst (validate_entry (data_entries ! i)) \<longrightarrow>
          rule_results ! i \<in> set ?low \<and> i \<notin> index ` set ?high
          \<and> index (rule_results ! i) = i \<and> score (rule_results ! i) = JInt 0
          \<and> stage (rule_results ! i) = ''rule_filter'')"
    using m by blast
  then show ?thesis
    by (intro exI [of _ ?high] exI [of _ ?low])
qed

lemma example_numeric: "numeric_scores example_evaluations"
  by (simp add: numeric_scores_def example_evaluations_def)

theorem merge_results_partition_witness:
  "length example_rule_results = length [JNull, JNull, JNull]
   \<and> map index example_rule_results = [0, 1, 2]
   \<and> numeric_scores example_evaluations
   \<and> (\<exists>high low.
        merge_results [JNull, JNull, JNull] example_rule_results example_evaluations
          default_config = Inr (high, low)
        \<and> length high + length low = length [JNull, JNull, JNull]
        \<and> index ` set high \<union> index ` set low = {0..<length [JNull, JNull, JNull]}
        \<and> index ` set high \<inter> index ` set low = {}
        \<and> distinct (map index high) \<and> distinct (map index low))"
proof -
  have l: "length example_rule_results = length [JNull, JNull, JNull]"
    by (simp add: example_rule_results_def)
  have i: "\<forall>i<length example_rule_results. index (example_rule_results ! i) = i"
    by (simp add: example_rule_results_def All_less_Suc numeral_3_eq_3)
  have i': "map index example_rule_results = [0, 1, 2]"
    by (simp add: example_rule_results_def)
  from merge_results_partition [OF l i example_numeric, of default_config] l i' example_numeric
  show ?thesis by blast
qed

theorem merge_results_placement_witness:
  "apply_rule_filtering example_entries
      = Inr (fst (rule_loop 0 example_entries), snd (rule_loop 0 example_entries))
   \<and> numeric_scores example_evaluations
   \<and> (0::nat) < length example_entries
   \<and> fst (validate_entry (example_entries ! 0))
   \<and> example_evaluations 0 = None
   \<and> \<not> accepts (evaluation_of example_evaluations 0) default_config
   \<and> (\<exists>high low r.
        merge_results example_entries (snd (rule_loop 0 example_entries)) example_evaluations
          default_config = Inr (high, low)
        \<and> index r = 0 \<and> stage r = ''ai_evaluation'' \<and> score r = JInt 5
        \<and> reason r = [Lit msg_not_evaluated] \<and> r \<in> set low \<and> 0 \<notin> index ` set high)"
proof -
  have a: "apply_rule_filtering example_entries
      = Inr (fst (rule_loop 0 example_entries), snd (rule_loop 0 example_entries))"
    by (simp add: apply_rule_filtering_def example_entries_def split: prod.splits)
  have n: "(0::nat) < length example_entries"
    by (simp add: example_entries_def)
  have v: "fst (validate_entry (example_entries ! 0))"
    using breakfast_relevant breakfast_one_failure
    by (simp add: example_entries_def validate_entry_qa_entry check_texts_valid)
  have e: "example_evaluations 0 = None"
    by (simp add: example_evaluations_def)
  have r: "\<not> accepts (evaluation_of example_evaluations 0) default_config"
    by (simp add: accepts_def evaluation_of_def e not_evaluated_def score_of_def keep_of_def
        default_config_def)
  from merge_results_placement [OF a example_numeric n, of default_config] v e r
  obtain high low ra where
    "merge_results example_entries (snd (rule_loop 0 example_entries)) example_evaluations
          default_config = Inr (high, low)"
    "index ra = 0" "stage ra = ''ai_evaluation''"
    "score ra = score_of (evaluation_of example_evaluations 0)"
    "reason ra = (case e_reason (evaluation_of example_evaluations 0) of None \<Rightarrow> [] | Some t \<Rightarrow> t)"
    "ra \<in> set low" "0 \<notin> index ` set high"
    "score_of (evaluation_of example_evaluations 0) = JInt 5"
    "e_reason (evaluation_of example_evaluations 0) = Some [Lit msg_not_evaluated]"
    by auto
  then have "\<exists>high low r.
        merge_results example_entries (snd (rule_loop 0 example_entries)) example_evaluations
          default_config = Inr (high, low)
        \<and> index r = 0 \<and> stage r = ''ai_evaluation'' \<and> score r = JInt 5
        \<and> reason r = [Lit msg_not_evaluated] \<and> r \<in> set low \<and> 0 \<notin> index ` set high"
    by (intro exI [of _ high] exI [of _ low] exI [of _ ra]) simp
  with a example_numeric n v e r show ?thesis by blast
qed

subsection \<open>The response parser\<close>

lemma standardize_Inr:
  "standardize evs is = Inr rs \<Longrightarrow>
     length rs = length is \<and> (\<forall>k<length is. standardize_item evs (is ! k) = Inr (rs ! k))"
proof (induction "is" arbitrary: rs)
  case Nil
  then show ?case by simp
next
  case (Cons i rest)
  from Cons.prems obtain r rs' where r: "standardize_item evs i = Inr r"
    and rs': "standardize evs rest = Inr rs'" and eq: "rs = r # rs'"
    by (auto simp: ebind_def split: sum.splits)
  from Cons.IH [OF rs'] r eq show ?case
    by (auto simp: nth_Cons split: nat.splits)
qed

lemma standardize_total:
  "\<forall>i\<in>set is. standardize_item evs i = Inr (f i) \<Longrightarrow> standardize evs is = Inr (map f is)"
  by (induction "is") (auto simp: ebind_def)

lemma standardize_item_default:
  "i < n \<Longrightarrow> standardize_item (default_evaluations n) i = Inr (fallback_item (ai_reason (JInt 7)))"
  by (simp add: standardize_item_def default_evaluations_def ebind_def fallback_item_def
      key_score_def key_keep_def)

lemma standardize_default:
  "standardize (default_evaluations n) [0..<n] = Inr (replicate n (fallback_item (ai_reason (JInt 7))))"
proof -
  have "standardize (default_evaluations n) [0..<n]
          = Inr (map (\<lambda>i. fallback_item (ai_reason (JInt 7))) [0..<n])"
    by (rule standardize_total) (simp add: standardize_item_default)
  then show ?thesis by (simp add: map_replicate_const)
qed

lemma parse_no_match:
  "re_search_array raw = None \<Longrightarrow>
     parse_ai_response loads raw n = replicate n (fallback_item (ai_reason (JInt 7)))"
  by (simp add: parse_ai_response_def ebind_def standardize_default)

lemma parse_decode_error:
  "re_search_array raw = Some s \<Longrightarrow> loads s = Inl e \<Longrightarrow>
     parse_ai_response loads raw n = replicate n (fallback_item [Lit msg_parse_failed, Exc e])"
  by (simp add: parse_ai_response_def ebind_def fallback_item_def)

lemma parse_cases:
  "(\<exists>e. parse_ai_response loads raw n = replicate n (fallback_item [Lit msg_parse_failed, Exc e]))
   \<or> (\<exists>evs rs. (case re_search_array raw of Some s \<Rightarrow> loads s
                  | None \<Rightarrow> Inr (default_evaluations n)) = Inr evs
        \<and> standardize evs [0..<n] = Inr rs \<and> parse_ai_response loads raw n = rs)"
  by (auto simp: parse_ai_response_def ebind_def fallback_item_def split: sum.splits option.splits)

lemma length_parse: "length (parse_ai_response loads raw n) = n"
  using parse_cases [of loads raw n] by (auto dest: standardize_Inr)

text \<open>
  Claim C4. \<open>parse_ai_response\<close> always returns exactly \<open>entry_count\<close> items (it is a
  total function: every exception of its body is caught by its handler). When no
  bracketed array is found in the response, or \<open>json.loads\<close> raises on the array found,
  every item has score 7 and keep \<open>True\<close>.
\<close>

theorem parse_fallback:
  "length (parse_ai_response loads raw n) = n
   \<and> (re_search_array raw = None \<or> (\<exists>s e. re_search_array raw = Some s \<and> loads s = Inl e)
        \<longrightarrow> (\<forall>ev \<in> set (parse_ai_response loads raw n).
               e_score ev = Some (JInt 7) \<and> e_keep ev = Some (JBool True)))"
  by (auto simp: length_parse parse_no_match parse_decode_error fallback_item_def)

lemma re_search_garbage: "re_search_array garbage_response = Some garbage_response"
  by (simp add: re_search_array_def garbage_response_def)

theorem parse_fallback_witness:
  "re_search_array garbage_response = Some garbage_response
   \<and> sample_loads garbage_response = Inl (Raised expecting_value)
   \<and> length (parse_ai_response sample_loads garbage_response 3) = 3
   \<and> list_all (\<lambda>ev. e_score ev = Some (JInt 7) \<and> e_keep ev = Some (JBool True))
        (parse_ai_response sample_loads garbage_response 3)"
proof -
  have l: "sample_loads garbage_response = Inl (Raised expecting_value)"
    by (simp add: sample_loads_def garbage_response_def example_response_def)
  from parse_fallback [of sample_loads garbage_response 3] re_search_garbage l
  show ?thesis by (auto simp: list_all_iff)
qed

lemma standardize_item_beyond:
  "length items \<le> i \<Longrightarrow>
     standardize_item (JArr items) i = Inr (fallback_item (ai_reason (JInt 7)))"
  by (simp add: standardize_item_def ebind_def fallback_item_def)

lemma standardize_item_object:
  assumes "i < length items" and "items ! i = JObj kvs"
    and "standardize_item (JArr items) i = Inr r"
  shows "\<exists>b. py_ge (raw_score kvs) 7 = Inr b
           \<and> r = \<lparr>e_score = Some (raw_score kvs),
                   e_keep = Some (case map_of kvs key_keep of None \<Rightarrow> JBool b | Some v \<Rightarrow> v),
                   e_reason = Some (ai_reason (raw_score kvs))\<rparr>"
  using assms
  by (auto simp: standardize_item_def ebind_def raw_score_def split: sum.splits)

lemma standardize_item_ok:
  assumes "i < length items" and "item_ok (items ! i)"
  shows "\<exists>r sc. standardize_item (JArr items) i = Inr r \<and> e_score r = Some sc
           \<and> e_reason r = Some (ai_reason sc)"
proof -
  from assms(2) obtain kvs where kvs: "items ! i = JObj kvs" and num: "is_number (raw_score kvs)"
    by (auto simp: item_ok_def split: json.splits)
  from num obtain b where "py_ge (raw_score kvs) 7 = Inr b"
    using py_ge_number by blast
  with assms(1) kvs show ?thesis
    by (simp add: standardize_item_def ebind_def raw_score_def)
qed






lemma sample_loads_garbage: "sample_loads garbage_response = Inl (Raised expecting_value)"
  by (simp add: sample_loads_def garbage_response_def example_response_def)


lemma parse_template_no_match:
  assumes "re_search_array raw = None" and "ev \<in> set (parse_ai_response loads raw n)"
  shows "e_score ev = Some (JInt 7) \<and> e_reason ev = Some (ai_reason (JInt 7))"
  using assms by (auto simp: parse_no_match fallback_item_def)

lemma standardize_item_template:
  assumes "standardize_item evs i = Inr r"
  shows "\<exists>sc. e_score r = Some sc \<and> e_reason r = Some (ai_reason sc)"
  using assms
  by (auto simp: standardize_item_def ebind_def split: sum.splits if_splits)

lemma standardize_template:
  assumes "standardize evs is = Inr rs" and "ev \<in> set rs"
  shows "\<exists>sc. e_score ev = Some sc \<and> e_reason ev = Some (ai_reason sc)"
proof -
  from assms(2) obtain k where k: "k < length rs" and ev: "ev = rs ! k"
    by (auto simp: in_set_conv_nth)
  from standardize_Inr [OF assms(1)] k have "standardize_item evs (is ! k) = Inr (rs ! k)"
    by simp
  then show ?thesis using ev standardize_item_template by blast
qed

lemma item_ok_error: "item_ok item \<longleftrightarrow> item_error item = None"
  by (auto simp: item_ok_def item_error_def split: json.splits)

lemma py_ge_not_number: "\<not> is_number sc \<Longrightarrow> py_ge sc k = Inl TypeError"
  by (cases sc) auto

lemma standardize_item_error:
  assumes "i < length items" and "item_error (items ! i) = Some e"
  shows "standardize_item (JArr items) i = Inl e"
proof (cases "items ! i")
  case (JObj kvs)
  with assms(2) have "\<not> is_number (raw_score kvs)" and "e = TypeError"
    by (auto simp: item_error_def split: if_splits)
  with assms(1) JObj show ?thesis
    using py_ge_not_number [of "raw_score kvs" 7]
    by (simp add: standardize_item_def ebind_def raw_score_def)
qed (use assms in \<open>auto simp: item_error_def standardize_item_def ebind_def\<close>)

lemma standardize_first_error:
  assumes "\<forall>j \<in> set pre. \<exists>r. standardize_item evs j = Inr r"
    and "standardize_item evs i = Inl e"
  shows "standardize evs (pre @ i # post) = Inl e"
  using assms by (induction pre) (auto simp: ebind_def)

lemma parse_standardize_error:
  assumes "re_search_array raw = Some s" and "loads s = Inr evs"
    and "standardize evs [0..<n] = Inl e"
  shows "parse_ai_response loads raw n = replicate n (fallback_item [Lit msg_parse_failed, Exc e])"
  using assms by (simp add: parse_ai_response_def ebind_def fallback_item_def)

lemma parse_standardize_ok:
  assumes "re_search_array raw = Some s" and "loads s = Inr evs"
    and "standardize evs [0..<n] = Inr rs"
  shows "parse_ai_response loads raw n = rs"
  using assms by (simp add: parse_ai_response_def ebind_def)

lemma parse_first_bad_item:
  assumes "re_search_array raw = Some s" and "loads s = Inr (JArr items)"
    and "i < n" and "i < length items" and "\<forall>j<i. item_ok (items ! j)"
    and "item_error (items ! i) = Some e"
  shows "parse_ai_response loads raw n = replicate n (fallback_item [Lit msg_parse_failed, Exc e])"
proof -
  have split: "[0..<n] = [0..<i] @ i # [Suc i..<n]"
    using assms(3) by (metis less_imp_add_positive upt_add_eq_append upt_conv_Cons zero_le
        less_or_eq_imp_le add.commute)
  have pre: "\<forall>j \<in> set [0..<i]. \<exists>r. standardize_item (JArr items) j = Inr r"
  proof
    fix j assume "j \<in> set [0..<i]"
    then have "j < i" by simp
    with assms(4,5) have "j < length items" "item_ok (items ! j)" by simp_all
    then show "\<exists>r. standardize_item (JArr items) j = Inr r"
      using standardize_item_ok by blast
  qed
  have "standardize (JArr items) ([0..<i] @ i # [Suc i..<n]) = Inl e"
    using pre standardize_item_error [OF assms(4,6)] by (rule standardize_first_error)
  then have "standardize (JArr items) [0..<n] = Inl e" by (simp only: split [symmetric])
  with assms(1,2) show ?thesis by (rule parse_standardize_error)
qed

lemma parse_all_ok:
  assumes "re_search_array raw = Some s" and "loads s = Inr (JArr items)"
    and "\<forall>i<min n (length items). item_ok (items ! i)"
  shows "length (parse_ai_response loads raw n) = n
         \<and> (\<forall>i<n. standardize_item (JArr items) i = Inr (parse_ai_response loads raw n ! i))"
proof -
  have "\<forall>j\<in>set [0..<n]. \<exists>r. standardize_item (JArr items) j = Inr r"
  proof
    fix j assume "j \<in> set [0..<n]"
    then have j: "j < n" by simp
    show "\<exists>r. standardize_item (JArr items) j = Inr r"
    proof (cases "j < length items")
      case True
      with j assms(3) have "item_ok (items ! j)" by simp
      with True show ?thesis using standardize_item_ok by blast
    next
      case False
      then show ?thesis by (simp add: standardize_item_beyond)
    qed
  qed
  then obtain f where "\<forall>j\<in>set [0..<n]. standardize_item (JArr items) j = Inr (f j)"
    by metis
  then have st: "standardize (JArr items) [0..<n] = Inr (map f [0..<n])"
    by (rule standardize_total)
  with assms(1,2) have R: "parse_ai_response loads raw n = map f [0..<n]"
    by (rule parse_standardize_ok)
  from standardize_Inr [OF st] show ?thesis
    unfolding R by simp
qed

lemma failure_reason_not_template: "[Lit msg_parse_failed, Exc e] \<noteq> ai_reason sc"
  by (simp add: ai_reason_def)

text \<open>
  Claim C8, as amended. Either every returned item has the reason built from the template
  and its resolved score, or an exception was caught and every returned item has score 7,
  keep \<open>True\<close> and the reason "parse failed" followed by the error, which does not embed
  the score; the two reasons are never equal. The template is used when no array is found
  (every item is the default with score 7) and whenever the standardising loop returns,
  which it does when the array found decodes to a list whose first \<open>entry_count\<close> items
  are objects with number scores: then the reason of an item embeds the score of its
  object (7 beyond the list), and the reason a decoded item may carry is not read. The
  failure text is used when \<open>json.loads\<close> raises, with the error it raised, and when the
  standardising loop raises, with the error of the first item it cannot standardise:
  \<open>AttributeError\<close> for an item that is not an object, \<open>TypeError\<close> for an object
  whose score is not a number.
\<close>

theorem parse_reasons:
  "((\<exists>e. \<forall>ev \<in> set (parse_ai_response loads raw n).
        e_score ev = Some (JInt 7) \<and> e_keep ev = Some (JBool True)
        \<and> e_reason ev = Some [Lit msg_parse_failed, Exc e])
    \<or> (\<forall>ev \<in> set (parse_ai_response loads raw n).
        \<exists>sc. e_score ev = Some sc \<and> e_reason ev = Some (ai_reason sc)))
   \<and> (re_search_array raw = None \<longrightarrow>
        (\<forall>ev \<in> set (parse_ai_response loads raw n).
           \<exists>sc. e_score ev = Some sc \<and> e_reason ev = Some (ai_reason sc)))
   \<and> (\<forall>s items. re_search_array raw = Some s \<and> loads s = Inr (JArr items)
          \<and> (\<forall>i<min n (length items). item_ok (items ! i)) \<longrightarrow>
        (\<forall>ev \<in> set (parse_ai_response loads raw n).
           \<exists>sc. e_score ev = Some sc \<and> e_reason ev = Some (ai_reason sc)))
   \<and> (\<forall>s e. re_search_array raw = Some s \<and> loads s = Inl e \<longrightarrow>
        (\<forall>ev \<in> set (parse_ai_response loads raw n).
           e_reason ev = Some [Lit msg_parse_failed, Exc e]))
   \<and> (re_search_array raw = None \<longrightarrow>
        parse_ai_response loads raw n
          = replicate n \<lparr>e_score = Some (JInt 7), e_keep = Some (JBool True),
                          e_reason = Some (ai_reason (JInt 7))\<rparr>)
   \<and> (\<forall>s e. re_search_array raw = Some s \<and> loads s = Inl e \<longrightarrow>
        parse_ai_response loads raw n
          = replicate n \<lparr>e_score = Some (JInt 7), e_keep = Some (JBool True),
                          e_reason = Some [Lit msg_parse_failed, Exc e]\<rparr>)
   \<and> (\<forall>s evs e. re_search_array raw = Some s \<and> loads s = Inr evs
          \<and> standardize evs [0..<n] = Inl e \<longrightarrow>
        parse_ai_response loads raw n
          = replicate n \<lparr>e_score = Some (JInt 7), e_keep = Some (JBool True),
                          e_reason = Some [Lit msg_parse_failed, Exc e]\<rparr>)
   \<and> (\<forall>s evs rs. re_search_array raw = Some s \<and> loads s = Inr evs
          \<and> standardize evs [0..<n] = Inr rs \<longrightarrow>
        parse_ai_response loads raw n = rs
        \<and> (\<forall>ev \<in> set rs. \<exists>sc. e_score ev = Some sc \<and> e_reason ev = Some (ai_reason sc)))
   \<and> (\<forall>s items i e. re_search_array raw = Some s \<and> loads s = Inr (JArr items)
          \<and> i < n \<and> i < length items \<and> (\<forall>j<i. item_ok (items ! j))
          \<and> item_error (items ! i) = Some e \<longrightarrow>
        parse_ai_response loads raw n
          = replicate n \<lparr>e_score = Some (JInt 7), e_keep = Some (JBool True),
                          e_reason = Some [Lit msg_parse_failed, Exc e]\<rparr>)
   \<and> (\<forall>s items. re_search_array raw = Some s \<and> loads s = Inr (JArr items)
          \<and> (\<forall>i<min n (length items). item_ok (items ! i)) \<longrightarrow>
        (\<forall>i kvs. i < n \<and> i < length items \<and> items ! i = JObj kvs \<longrightarrow>
           e_reason (parse_ai_response loads raw n ! i) = Some (ai_reason (raw_score kvs)))
        \<and> (\<forall>i. length items \<le> i \<and> i < n \<longrightarrow>
           e_reason (parse_ai_response loads raw n ! i) = Some (ai_reason (JInt 7))))
   \<and> (\<forall>e sc. [Lit msg_parse_failed, Exc e] \<noteq> ai_reason sc)"
proof -
  let ?R = "parse_ai_response loads raw n"
  let ?T = "\<forall>ev \<in> set ?R. \<exists>sc. e_score ev = Some sc \<and> e_reason ev = Some (ai_reason sc)"
  have a: "(\<exists>e. \<forall>ev \<in> set ?R. e_score ev = Some (JInt 7) \<and> e_keep ev = Some (JBool True)
        \<and> e_reason ev = Some [Lit msg_parse_failed, Exc e]) \<or> ?T"
    using parse_cases [of loads raw n]
  proof
    assume "\<exists>e. ?R = replicate n (fallback_item [Lit msg_parse_failed, Exc e])"
    then have "\<exists>e. \<forall>ev \<in> set ?R. e_score ev = Some (JInt 7) \<and> e_keep ev = Some (JBool True)
        \<and> e_reason ev = Some [Lit msg_parse_failed, Exc e]"
      by (auto simp: fallback_item_def)
    then show ?thesis ..
  next
    assume "\<exists>evs rs. (case re_search_array raw of Some s \<Rightarrow> loads s
                  | None \<Rightarrow> Inr (default_evaluations n)) = Inr evs
        \<and> standardize evs [0..<n] = Inr rs \<and> ?R = rs"
    then have ?T using standardize_template by blast
    then show ?thesis ..
  qed
  have b: "re_search_array raw = None \<longrightarrow> ?T"
    using parse_template_no_match by blast
  have c: "\<forall>s items. re_search_array raw = Some s \<and> loads s = Inr (JArr items)
          \<and> (\<forall>i<min n (length items). item_ok (items ! i)) \<longrightarrow> ?T"
  proof (intro allI impI)
    fix s items
    assume h: "re_search_array raw = Some s \<and> loads s = Inr (JArr items)
          \<and> (\<forall>i<min n (length items). item_ok (items ! i))"
    then have ok: "length ?R = n \<and> (\<forall>i<n. standardize_item (JArr items) i = Inr (?R ! i))"
      using parse_all_ok [of raw s loads items n] by blast
    show ?T
    proof
      fix ev assume "ev \<in> set ?R"
      then obtain k where "k < n" and "ev = ?R ! k"
        using ok by (auto simp: in_set_conv_nth)
      with ok have "standardize_item (JArr items) k = Inr ev" by simp
      then show "\<exists>sc. e_score ev = Some sc \<and> e_reason ev = Some (ai_reason sc)"
        by (rule standardize_item_template)
    qed
  qed
  have d: "\<forall>s e. re_search_array raw = Some s \<and> loads s = Inl e \<longrightarrow>
        (\<forall>ev \<in> set ?R. e_reason ev = Some [Lit msg_parse_failed, Exc e])"
    by (auto simp: parse_decode_error fallback_item_def)
  have e: "re_search_array raw = None \<longrightarrow>
        ?R = replicate n \<lparr>e_score = Some (JInt 7), e_keep = Some (JBool True),
                          e_reason = Some (ai_reason (JInt 7))\<rparr>"
    by (simp add: parse_no_match fallback_item_def)
  have f: "\<forall>s e. re_search_array raw = Some s \<and> loads s = Inl e \<longrightarrow>
        ?R = replicate n \<lparr>e_score = Some (JInt 7), e_keep = Some (JBool True),
                          e_reason = Some [Lit msg_parse_failed, Exc e]\<rparr>"
    by (auto simp: parse_decode_error fallback_item_def)
  have g: "\<forall>s evs e. re_search_array raw = Some s \<and> loads s = Inr evs
          \<and> standardize evs [0..<n] = Inl e \<longrightarrow>
        ?R = replicate n \<lparr>e_score = Some (JInt 7), e_keep = Some (JBool True),
                          e_reason = Some [Lit msg_parse_failed, Exc e]\<rparr>"
    using parse_standardize_error [of raw _ loads _ n] by (auto simp: fallback_item_def)
  have h: "\<forall>s evs rs. re_search_array raw = Some s \<and> loads s = Inr evs
          \<and> standardize evs [0..<n] = Inr rs \<longrightarrow>
        ?R = rs
        \<and> (\<forall>ev \<in> set rs. \<exists>sc. e_score ev = Some sc \<and> e_reason ev = Some (ai_reason sc))"
    using parse_standardize_ok [of raw _ loads _ n] standardize_template by blast
  have i: "\<forall>s items i e. re_search_array raw = Some s \<and> loads s = Inr (JArr items)
          \<and> i < n \<and> i < length items \<and> (\<forall>j<i. item_ok (items ! j))
          \<and> item_error (items ! i) = Some e \<longrightarrow>
        ?R = replicate n \<lparr>e_score = Some (JInt 7), e_keep = Some (JBool True),
                          e_reason = Some [Lit msg_parse_failed, Exc e]\<rparr>"
    using parse_first_bad_item [of raw _ loads _ _ n] by (auto simp: fallback_item_def)
  have j: "\<forall>s items. re_search_array raw = Some s \<and> loads s = Inr (JArr items)
          \<and> (\<forall>i<min n (length items). item_ok (items ! i)) \<longrightarrow>
        (\<forall>i kvs. i < n \<and> i < length items \<and> items ! i = JObj kvs \<longrightarrow>
           e_reason (?R ! i) = Some (ai_reason (raw_score kvs)))
        \<and> (\<forall>i. length items \<le> i \<and> i < n \<longrightarrow>
           e_reason (?R ! i) = Some (ai_reason (JInt 7)))"
  proof (intro allI impI)
    fix s items
    assume hyp: "re_search_array raw = Some s \<and> loads s = Inr (JArr items)
          \<and> (\<forall>i<min n (length items). item_ok (items ! i))"
    then have ok: "\<forall>i<n. standardize_item (JArr items) i = Inr (?R ! i)"
      using parse_all_ok [of raw s loads items n] by blast
    have j1: "\<forall>i kvs. i < n \<and> i < length items \<and> items ! i = JObj kvs \<longrightarrow>
           e_reason (?R ! i) = Some (ai_reason (raw_score kvs))"
    proof (intro allI impI)
      fix i kvs assume ik: "i < n \<and> i < length items \<and> items ! i = JObj kvs"
      with ok have "standardize_item (JArr items) i = Inr (?R ! i)" by simp
      from standardize_item_object [OF _ _ this, of kvs] ik
      show "e_reason (?R ! i) = Some (ai_reason (raw_score kvs))" by auto
    qed
    have j2: "\<forall>i. length items \<le> i \<and> i < n \<longrightarrow> e_reason (?R ! i) = Some (ai_reason (JInt 7))"
    proof (intro allI impI)
      fix i assume ik: "length items \<le> i \<and> i < n"
      with ok have "standardize_item (JArr items) i = Inr (?R ! i)" by simp
      with ik have "?R ! i = fallback_item (ai_reason (JInt 7))"
        by (simp add: standardize_item_beyond)
      then show "e_reason (?R ! i) = Some (ai_reason (JInt 7))"
        by (simp add: fallback_item_def)
    qed
    from j1 j2 show "(\<forall>i kvs. i < n \<and> i < length items \<and> items ! i = JObj kvs \<longrightarrow>
           e_reason (?R ! i) = Some (ai_reason (raw_score kvs)))
        \<and> (\<forall>i. length items \<le> i \<and> i < n \<longrightarrow>
           e_reason (?R ! i) = Some (ai_reason (JInt 7)))" ..
  qed
  have k: "\<forall>e sc. [Lit msg_parse_failed, Exc e] \<noteq> ai_reason sc"
    by (simp add: failure_reason_not_template)
  from a b c d e f g h i j k show ?thesis by (intro conjI)
qed

lemma re_search_numbers: "re_search_array numbers_response = Some numbers_response"
  by (simp add: re_search_array_def numbers_response_def)

lemma numbers_loads_numbers: "numbers_loads numbers_response = Inr (JArr [JInt 8, JInt 9])"
  by (simp add: numbers_loads_def)

theorem parse_reasons_witness:
  "re_search_array numbers_response = Some numbers_response
   \<and> numbers_loads numbers_response = Inr (JArr [JInt 8, JInt 9])
   \<and> item_error (JInt 8) = Some AttributeError
   \<and> parse_ai_response numbers_loads numbers_response 1
       = [\<lparr>e_score = Some (JInt 7), e_keep = Some (JBool True),
           e_reason = Some [Lit msg_parse_failed, Exc AttributeError]\<rparr>]
   \<and> re_search_array garbage_response = Some garbage_response
   \<and> sample_loads garbage_response = Inl (Raised expecting_value)
   \<and> parse_ai_response sample_loads garbage_response 2
       = [\<lparr>e_score = Some (JInt 7), e_keep = Some (JBool True),
           e_reason = Some [Lit msg_parse_failed, Exc (Raised expecting_value)]\<rparr>,
          \<lparr>e_score = Some (JInt 7), e_keep = Some (JBool True),
           e_reason = Some [Lit msg_parse_failed, Exc (Raised expecting_value)]\<rparr>]"
proof -
  have ie: "item_error (JInt 8) = Some AttributeError" by (simp add: item_error_def)
  have n: "parse_ai_response numbers_loads numbers_response 1
       = [\<lparr>e_score = Some (JInt 7), e_keep = Some (JBool True),
           e_reason = Some [Lit msg_parse_failed, Exc AttributeError]\<rparr>]"
    using parse_reasons [of numbers_loads numbers_response 1] re_search_numbers
      numbers_loads_numbers ie
    by (auto simp: numeral_2_eq_2)
  have g: "parse_ai_response sample_loads garbage_response 2
       = [\<lparr>e_score = Some (JInt 7), e_keep = Some (JBool True),
           e_reason = Some [Lit msg_parse_failed, Exc (Raised expecting_value)]\<rparr>,
          \<lparr>e_score = Some (JInt 7), e_keep = Some (JBool True),
           e_reason = Some [Lit msg_parse_failed, Exc (Raised expecting_value)]\<rparr>]"
    using parse_reasons [of sample_loads garbage_response 2] re_search_garbage
      sample_loads_garbage
    by (simp add: numeral_2_eq_2)
  from re_search_numbers numbers_loads_numbers ie n re_search_garbage sample_loads_garbage g
  show ?thesis by (intro conjI)
qed

text \<open>
  Counterexample to claim C8 as stated, when decoding raises: for the response \<open>[x]\<close> the single
  item has score 7 and the failure reason, not the template with the score 7.
\<close>

theorem parse_reason_counterexample:
  "parse_ai_response sample_loads garbage_response 1
     = [\<lparr>e_score = Some (JInt 7), e_keep = Some (JBool True),
         e_reason = Some [Lit msg_parse_failed, Exc (Raised expecting_value)]\<rparr>]
   \<and> [Lit msg_parse_failed, Exc (Raised expecting_value)] \<noteq> ai_reason (JInt 7)"
  using parse_decode_error [of garbage_response garbage_response sample_loads
      "Raised expecting_value" 1, OF re_search_garbage sample_loads_garbage]
  by (simp add: fallback_item_def ai_reason_def)

subsection \<open>The batch evaluator\<close>

lemma length_entries_data: "length (entries_data entries) = length (valid_entries entries)"
  by (induction entries)
    (auto simp: entries_data_def valid_entries_def List.map_filter_simps split: option.splits)

lemma entries_data_Nil: "entries_data entries = [] \<longleftrightarrow> valid_entries entries = []"
  using length_entries_data [of entries] by (metis length_0_conv)

lemma build_results_total:
  assumes "i + length ves \<le> length evs" and "\<forall>ev \<in> set evs. e_score ev \<noteq> None"
  shows "\<exists>rs. build_results bid evs i ves = Inr rs \<and> map fst rs = map fst ves
           \<and> map (\<lambda>r. (e_score (snd r), e_keep (snd r))) rs
               = map (\<lambda>ev. (e_score ev, e_keep ev)) (take (length ves) (drop i evs))"
  using assms
proof (induction ves arbitrary: i)
  case Nil
  then show ?case by simp
next
  case (Cons ve rest)
  obtain idx entry where ve: "ve = (idx, entry)" by (cases ve)
  have lt: "i < length evs" using Cons.prems(1) by simp
  then obtain sc where sc: "e_score (evs ! i) = Some sc"
    using Cons.prems(2) by (metis nth_mem option.exhaust)
  have "Suc i + length rest \<le> length evs" using Cons.prems(1) by simp
  from Cons.IH [OF this Cons.prems(2)] obtain rs where
    rs: "build_results bid evs (Suc i) rest = Inr rs" "map fst rs = map fst rest"
    "map (\<lambda>r. (e_score (snd r), e_keep (snd r))) rs
       = map (\<lambda>ev. (e_score ev, e_keep ev)) (take (length rest) (drop (Suc i) evs))"
    by blast
  have d: "drop i evs = evs ! i # drop (Suc i) evs"
    using lt by (simp add: Cons_nth_drop_Suc)
  show ?case
    using lt sc rs by (simp add: ve ebind_def d)
qed

lemma parse_scores_present: "\<forall>ev \<in> set (parse_ai_response loads raw n). e_score ev \<noteq> None"
proof -
  from parse_cases [of loads raw n] show ?thesis
  proof
    assume "\<exists>e. parse_ai_response loads raw n = replicate n (fallback_item [Lit msg_parse_failed, Exc e])"
    then show ?thesis by (auto simp: fallback_item_def)
  next
    assume "\<exists>evs rs. (case re_search_array raw of Some s \<Rightarrow> loads s
                  | None \<Rightarrow> Inr (default_evaluations n)) = Inr evs
        \<and> standardize evs [0..<n] = Inr rs \<and> parse_ai_response loads raw n = rs"
    then show ?thesis using standardize_template by fastforce
  qed
qed

lemma evaluate_batch_parsed:
  assumes "entries_data entries \<noteq> []"
    and "create_evaluation_prompt (entries_data entries) = Inr p" and "gen p = Inr raw"
  shows "map fst (fst (evaluate_batch gen loads entries bid)) = map fst (valid_entries entries)
     \<and> map (\<lambda>r. (e_score (snd r), e_keep (snd r))) (fst (evaluate_batch gen loads entries bid))
         = map (\<lambda>ev. (e_score ev, e_keep ev))
             (parse_ai_response loads raw (length (valid_entries entries)))"
proof -
  let ?evs = "parse_ai_response loads raw (length (valid_entries entries))"
  have ne: "entries \<noteq> []" using assms(1) by (auto simp: entries_data_def List.map_filter_simps)
  have "0 + length (valid_entries entries) \<le> length ?evs" by (simp add: length_parse)
  from build_results_total [OF this parse_scores_present, of bid]
  obtain rs where rs: "build_results bid ?evs 0 (valid_entries entries) = Inr rs"
    "map fst rs = map fst (valid_entries entries)"
    "map (\<lambda>r. (e_score (snd r), e_keep (snd r))) rs
       = map (\<lambda>ev. (e_score ev, e_keep ev)) (take (length (valid_entries entries)) (drop 0 ?evs))"
    by blast
  have "fst (evaluate_batch gen loads entries bid) = rs"
    using ne assms rs(1) by (simp add: evaluate_batch_def Let_def)
  with rs(2,3) show ?thesis by (simp add: length_parse)
qed

lemma evaluate_batch_failed:
  assumes "entries_data entries \<noteq> []"
    and "create_evaluation_prompt (entries_data entries) = Inl e
         \<or> (\<exists>p. create_evaluation_prompt (entries_data entries) = Inr p \<and> gen p = Inl e)"
  shows "fst (evaluate_batch gen loads entries bid)
           = map (\<lambda>(idx, entry). (idx, batch_failure bid e)) (valid_entries entries)"
proof -
  have ne: "entries \<noteq> []" using assms(1) by (auto simp: entries_data_def List.map_filter_simps)
  from assms(2) show ?thesis
    using ne assms(1) by (auto simp: evaluate_batch_def)
qed

lemma validate_entry_extractable:
  assumes "fst (validate_entry entry)"
  shows "extract_texts entry \<noteq> None"
proof -
  from assms obtain r s where v: "validate_entry_try entry = Inr (True, r, s)"
    by (auto simp: validate_entry_def split: sum.splits)
  then obtain kvs where e: "entry = JObj kvs"
    by (cases entry) (auto simp: validate_entry_try_def ebind_def)
  from v show ?thesis
    by (auto simp: e validate_entry_try_def extract_texts_def ebind_def
        split: sum.splits if_splits)
qed

lemma valid_entries_rule_passed:
  assumes "\<forall>(idx, entry) \<in> set entries. fst (validate_entry entry)"
  shows "valid_entries entries = entries"
proof -
  have "\<forall>x \<in> set entries. (\<lambda>(idx, entry). extract_texts entry \<noteq> None) x"
    using assms validate_entry_extractable by fastforce
  then show ?thesis
    unfolding valid_entries_def by (rule filter_True)
qed

text \<open>
  Claim C6, as amended. For a batch with at least one entry whose texts can be extracted:
  when building the prompt raises, or the call of the collaborator raises, every entry
  of the batch with extractable texts receives score 6, keep \<open>True\<close> and the reason
  naming the batch number and the error, and the other entries receive nothing. When the
  collaborator answers, the scores and keeps are those of \<open>parse_ai_response\<close>, which
  catches its own exceptions (score 7), so that no exception of the parser reaches the
  batch. A batch none of whose entries is extractable receives score 5 for every member
  and the collaborator is not called. In a batch of entries that passed the rules every
  entry is extractable, so there every member receives the fallback.
\<close>

theorem evaluate_batch_failure:
  "(entries_data entries \<noteq> []
      \<and> (create_evaluation_prompt (entries_data entries) = Inl e
          \<or> (\<exists>p. create_evaluation_prompt (entries_data entries) = Inr p \<and> gen p = Inl e)) \<longrightarrow>
      fst (evaluate_batch gen loads entries batch_id)
        = map (\<lambda>(idx, entry).
                 (idx, \<lparr>e_score = Some (JInt 6), e_keep = Some (JBool True),
                        e_reason = Some [Lit msg_eval_failed, Str (JInt (int batch_id)),
                                         Lit msg_colon, Exc e]\<rparr>))
            (filter (\<lambda>(idx, entry). extract_texts entry \<noteq> None) entries))
   \<and> (entries_data entries \<noteq> []
        \<and> create_evaluation_prompt (entries_data entries) = Inr p \<and> gen p = Inr raw \<longrightarrow>
        map fst (fst (evaluate_batch gen loads entries batch_id))
          = map fst (filter (\<lambda>(idx, entry). extract_texts entry \<noteq> None) entries)
        \<and> map (\<lambda>r. (e_score (snd r), e_keep (snd r)))
              (fst (evaluate_batch gen loads entries batch_id))
          = map (\<lambda>ev. (e_score ev, e_keep ev))
              (parse_ai_response loads raw
                 (length (filter (\<lambda>(idx, entry). extract_texts entry \<noteq> None) entries))))
   \<and> (entries \<noteq> [] \<and> entries_data entries = [] \<longrightarrow>
        evaluate_batch gen loads entries batch_id
          = (map (\<lambda>(idx, entry).
                    (idx, \<lparr>e_score = Some (JInt 5), e_keep = Some (JBool True),
                           e_reason = Some [Lit msg_format_error]\<rparr>)) entries, []))
   \<and> ((\<forall>(idx, entry) \<in> set entries. fst (validate_entry entry)) \<longrightarrow>
        filter (\<lambda>(idx, entry). extract_texts entry \<noteq> None) entries = entries
        \<and> (entries \<noteq> [] \<longrightarrow> entries_data entries \<noteq> []))"
proof -
  have a: "entries_data entries \<noteq> []
      \<and> (create_evaluation_prompt (entries_data entries) = Inl e
          \<or> (\<exists>p. create_evaluation_prompt (entries_data entries) = Inr p \<and> gen p = Inl e)) \<longrightarrow>
      fst (evaluate_batch gen loads entries batch_id)
        = map (\<lambda>(idx, entry).
                 (idx, \<lparr>e_score = Some (JInt 6), e_keep = Some (JBool True),
                        e_reason = Some [Lit msg_eval_failed, Str (JInt (int batch_id)),
                                         Lit msg_colon, Exc e]\<rparr>))
            (filter (\<lambda>(idx, entry). extract_texts entry \<noteq> None) entries)"
    using evaluate_batch_failed [of entries e gen loads batch_id]
    by (simp add: valid_entries_def batch_failure_def)
  have b: "entries_data entries \<noteq> []
        \<and> create_evaluation_prompt (entries_data entries) = Inr p \<and> gen p = Inr raw \<longrightarrow>
        map fst (fst (evaluate_batch gen loads entries batch_id))
          = map fst (filter (\<lambda>(idx, entry). extract_texts entry \<noteq> None) entries)
        \<and> map (\<lambda>r. (e_score (snd r), e_keep (snd r)))
              (fst (evaluate_batch gen loads entries batch_id))
          = map (\<lambda>ev. (e_score ev, e_keep ev))
              (parse_ai_response loads raw
                 (length (filter (\<lambda>(idx, entry). extract_texts entry \<noteq> None) entries)))"
    using evaluate_batch_parsed [of entries p gen raw loads batch_id]
    by (simp add: valid_entries_def)
  have c: "entries \<noteq> [] \<and> entries_data entries = [] \<longrightarrow>
        evaluate_batch gen loads entries batch_id
          = (map (\<lambda>(idx, entry).
                    (idx, \<lparr>e_score = Some (JInt 5), e_keep = Some (JBool True),
                           e_reason = Some [Lit msg_format_error]\<rparr>)) entries, [])"
    by (simp add: evaluate_batch_def format_failure_def)
  have d: "(\<forall>(idx, entry) \<in> set entries. fst (validate_entry entry)) \<longrightarrow>
        filter (\<lambda>(idx, entry). extract_texts entry \<noteq> None) entries = entries
        \<and> (entries \<noteq> [] \<longrightarrow> entries_data entries \<noteq> [])"
  proof
    assume h: "\<forall>(idx, entry) \<in> set entries. fst (validate_entry entry)"
    then have v: "valid_entries entries = entries" by (rule valid_entries_rule_passed)
    then have "entries \<noteq> [] \<longrightarrow> entries_data entries \<noteq> []"
      by (simp add: entries_data_Nil)
    with v show "filter (\<lambda>(idx, entry). extract_texts entry \<noteq> None) entries = entries
        \<and> (entries \<noteq> [] \<longrightarrow> entries_data entries \<noteq> [])"
      by (simp add: valid_entries_def)
  qed
  from a b c d show ?thesis by (intro conjI)
qed

lemma extract_qa_entry: "extract_texts (qa_entry q a) = Some (JStr q, JStr a)"
  by (simp add: extract_texts_def qa_entry_def ebind_def turn_text_def)

lemma extract_empty_object: "extract_texts (JObj []) = None"
  by (simp add: extract_texts_def ebind_def)

lemma prompt_towel:
  "\<exists>p. create_evaluation_prompt [(JStr towel_question, JStr towel_answer)] = Inr p"
  by (simp add: create_evaluation_prompt_def truncated_def ebind_def towel_question_def
      towel_answer_def)

lemma entries_data_mixed:
  "entries_data mixed_batch = [(JStr towel_question, JStr towel_answer)]"
  by (simp add: entries_data_def mixed_batch_def towel_entry_def List.map_filter_simps
      extract_qa_entry extract_empty_object)

lemma valid_entries_mixed: "valid_entries mixed_batch = [(0, towel_entry)]"
  by (simp add: valid_entries_def mixed_batch_def towel_entry_def
      extract_qa_entry extract_empty_object)

lemma mixed_batch_failing:
  "fst (evaluate_batch failing_gen sample_loads mixed_batch 0)
     = [(0, batch_failure 0 (Raised service_down))]"
proof -
  have "entries_data mixed_batch \<noteq> []" by (simp add: entries_data_mixed)
  moreover have "create_evaluation_prompt (entries_data mixed_batch) = Inl (Raised service_down)
         \<or> (\<exists>p. create_evaluation_prompt (entries_data mixed_batch) = Inr p
                \<and> failing_gen p = Inl (Raised service_down))"
    using prompt_towel by (simp add: entries_data_mixed failing_gen_def)
  ultimately show ?thesis
    by (simp add: evaluate_batch_failed valid_entries_mixed)
qed

theorem evaluate_batch_failure_witness:
  "entries_data mixed_batch = [(JStr towel_question, JStr towel_answer)]
   \<and> (\<exists>p. create_evaluation_prompt (entries_data mixed_batch) = Inr p
          \<and> failing_gen p = Inl (Raised service_down))
   \<and> fst (evaluate_batch failing_gen sample_loads mixed_batch 0)
       = [(0, \<lparr>e_score = Some (JInt 6), e_keep = Some (JBool True),
               e_reason = Some [Lit msg_eval_failed, Str (JInt 0), Lit msg_colon,
                                Exc (Raised service_down)]\<rparr>)]"
proof -
  have f: "\<exists>p. create_evaluation_prompt (entries_data mixed_batch) = Inr p
          \<and> failing_gen p = Inl (Raised service_down)"
    using prompt_towel by (simp add: entries_data_mixed failing_gen_def)
  have ne: "entries_data mixed_batch \<noteq> []" by (simp add: entries_data_mixed)
  have flt: "filter (\<lambda>(idx, entry). extract_texts entry \<noteq> None) mixed_batch = [(0, towel_entry)]"
    using valid_entries_mixed by (simp add: valid_entries_def)
  from evaluate_batch_failure [of mixed_batch "Raised service_down" failing_gen sample_loads 0,
      unfolded flt] f ne
  have "fst (evaluate_batch failing_gen sample_loads mixed_batch 0)
       = [(0, \<lparr>e_score = Some (JInt 6), e_keep = Some (JBool True),
               e_reason = Some [Lit msg_eval_failed, Str (JInt 0), Lit msg_colon,
                                Exc (Raised service_down)]\<rparr>)]"
    by simp
  with f entries_data_mixed show ?thesis by blast
qed

text \<open>
  Counterexample to claim C6 as stated, on three inputs. With a collaborator that always raises, the
  batch of an extractable and an unreadable entry yields a result for index 0 only, and
  the batch of one unreadable entry yields score 5. With a collaborator that answers
  \<open>[x]\<close>, decoding raises during parsing and the entry receives score 7.
\<close>

theorem evaluate_batch_counterexample:
  "map fst mixed_batch = [0, 1]
   \<and> map fst (fst (evaluate_batch failing_gen sample_loads mixed_batch 0)) = [0]
   \<and> fst (evaluate_batch failing_gen sample_loads [(1, JObj [])] 0)
       = [(1, \<lparr>e_score = Some (JInt 5), e_keep = Some (JBool True),
               e_reason = Some [Lit msg_format_error]\<rparr>)]
   \<and> map (\<lambda>r. e_score (snd r)) (fst (evaluate_batch garbage_gen sample_loads [(0, towel_entry)] 0))
       = [Some (JInt 7)]"
proof -
  have a: "map fst mixed_batch = [0, 1]" by (simp add: mixed_batch_def)
  have b: "map fst (fst (evaluate_batch failing_gen sample_loads mixed_batch 0)) = [0]"
    by (simp add: mixed_batch_failing)
  have c: "fst (evaluate_batch failing_gen sample_loads [(1, JObj [])] 0)
       = [(1, \<lparr>e_score = Some (JInt 5), e_keep = Some (JBool True),
               e_reason = Some [Lit msg_format_error]\<rparr>)]"
    by (simp add: evaluate_batch_def entries_data_def List.map_filter_simps
        extract_empty_object format_failure_def)
  have ed: "entries_data [(0, towel_entry)] = [(JStr towel_question, JStr towel_answer)]"
    by (simp add: entries_data_def towel_entry_def List.map_filter_simps extract_qa_entry)
  have ve: "valid_entries [(0, towel_entry)] = [(0, towel_entry)]"
    by (simp add: valid_entries_def towel_entry_def extract_qa_entry)
  obtain p where p: "create_evaluation_prompt (entries_data [(0, towel_entry)]) = Inr p"
    using prompt_towel by (auto simp: ed)
  have g: "garbage_gen p = Inr garbage_response" by (simp add: garbage_gen_def)
  have ne: "entries_data [(0, towel_entry)] \<noteq> []" by (simp add: ed)
  have pr: "parse_ai_response sample_loads garbage_response (Suc 0)
              = [fallback_item [Lit msg_parse_failed, Exc (Raised expecting_value)]]"
    using parse_decode_error [of garbage_response garbage_response sample_loads
        "Raised expecting_value" "Suc 0", OF re_search_garbage sample_loads_garbage]
    by simp
  from evaluate_batch_parsed [of "[(0, towel_entry)]" p garbage_gen garbage_response
      sample_loads 0, OF ne p g]
  have "map (\<lambda>r. (e_score (snd r), e_keep (snd r)))
          (fst (evaluate_batch garbage_gen sample_loads [(0, towel_entry)] 0))
        = [(Some (JInt 7), Some (JBool True))]"
    by (simp add: ve pr fallback_item_def)
  then have d: "map (\<lambda>r. e_score (snd r))
          (fst (evaluate_batch garbage_gen sample_loads [(0, towel_entry)] 0)) = [Some (JInt 7)]"
    by (auto simp: map_eq_Cons_conv)
  from a b c d show ?thesis by (intro conjI)
qed

subsection \<open>The concurrent collection of batches\<close>

lemma store_results_add: "store_results m rs = m ++ map_of (rev rs)"
proof (induction rs arbitrary: m)
  case Nil
  then show ?case by (simp add: store_results_def)
next
  case (Cons r rs)
  obtain k v where r: "r = (k, v)" by (cases r)
  have "store_results m (r # rs) = store_results (m(k \<mapsto> v)) rs"
    by (simp add: store_results_def r)
  also have "\<dots> = m(k \<mapsto> v) ++ map_of (rev rs)" by (rule Cons.IH)
  also have "\<dots> = m ++ map_of (rev (r # rs))"
    by (simp add: r)
  finally show ?case .
qed

lemma fst_collect_future:
  "fst (collect_future work batches bid acc) = fst acc ++ batch_updates work batches bid"
  by (cases acc; cases "work (batches ! bid) bid")
    (auto simp: collect_future_def batch_updates_def store_results_add split: sum.splits)

lemma fst_fold_collect:
  "fst (fold (collect_future work batches) order acc)
     = fold (\<lambda>bid m. m ++ batch_updates work batches bid) order (fst acc)"
  by (induction order arbitrary: acc) (simp_all add: fst_collect_future)

lemma dom_batch_updates:
  assumes "\<forall>batch bid rs. fst (work batch bid) = Inr rs \<longrightarrow> fst ` set rs \<subseteq> fst ` set batch"
  shows "dom (batch_updates work batches bid) \<subseteq> fst ` set (batches ! bid)"
proof (cases "fst (work (batches ! bid) bid)")
  case (Inl e)
  have "fst ` set (map (\<lambda>(oi, entry). (oi, future_failure bid)) (batches ! bid))
          = fst ` set (batches ! bid)"
    by (force simp: image_iff)
  with Inl show ?thesis
    by (simp add: batch_updates_def dom_map_of_conv_image_fst del: set_map)
next
  case (Inr rs)
  with assms have "fst ` set rs \<subseteq> fst ` set (batches ! bid)" by blast
  with Inr show ?thesis
    by (simp add: batch_updates_def dom_map_of_conv_image_fst)
qed

lemma slice_nth:
  assumes "z \<in> set (take b (drop s ys))"
  shows "\<exists>i. s \<le> i \<and> i < s + b \<and> i < length ys \<and> ys ! i = z"
proof -
  from assms obtain k where k: "k < length (take b (drop s ys))"
    and z: "take b (drop s ys) ! k = z"
    by (auto simp: in_set_conv_nth)
  from k have kb: "k < b" and kl: "s + k < length ys" by auto
  from z kb kl have "ys ! (s + k) = z" by simp
  with kb kl show ?thesis by (intro exI [of _ "s + k"]) simp
qed

lemma slices_disjoint:
  assumes d: "distinct (map fst xs)" and ne: "x \<noteq> y"
  shows "fst ` set (take b (drop (x * b) xs)) \<inter> fst ` set (take b (drop (y * b) xs)) = {}"
proof (rule ccontr)
  assume "fst ` set (take b (drop (x * b) xs)) \<inter> fst ` set (take b (drop (y * b) xs)) \<noteq> {}"
  then obtain z where zx: "z \<in> set (take b (drop (x * b) (map fst xs)))"
    and zy: "z \<in> set (take b (drop (y * b) (map fst xs)))"
    by (auto simp: take_map drop_map)
  from slice_nth [OF zx] obtain i where
    i: "x * b \<le> i" "i < x * b + b" "i < length (map fst xs)" "map fst xs ! i = z" by blast
  from slice_nth [OF zy] obtain j where
    j: "y * b \<le> j" "j < y * b + b" "j < length (map fst xs)" "map fst xs ! j = z" by blast
  have ij: "i = j"
    using nth_eq_iff_index_eq [OF d, of i j] i(3,4) j(3,4) by simp
  from ne consider "x < y" | "y < x" by linarith
  then show False
  proof cases
    case 1
    then have "Suc x * b \<le> y * b" by (intro mult_le_mono1) simp
    with i(2) j(1) ij show False by simp
  next
    case 2
    then have "Suc y * b \<le> x * b" by (intro mult_le_mono1) simp
    with j(2) i(1) ij show False by simp
  qed
qed

lemma rule_loop_passed:
  "distinct (map fst (fst (rule_loop k es))) \<and> (\<forall>i \<in> fst ` set (fst (rule_loop k es)). k \<le> i)"
proof (induction es arbitrary: k)
  case Nil
  then show ?case by simp
next
  case (Cons e es)
  obtain v why st where ve: "validate_entry e = (v, why, st)" by (cases "validate_entry e")
  obtain p a where pa: "rule_loop (Suc k) es = (p, a)" by (cases "rule_loop (Suc k) es")
  from Cons.IH [of "Suc k"] pa have d: "distinct (map fst p)"
    and ge: "\<forall>i \<in> fst ` set p. Suc k \<le> i" by simp_all
  have f: "fst (rule_loop k (e # es)) = (if v then [(k, e)] else []) @ p"
    by (simp add: ve pa)
  from ge have nk: "k \<notin> fst ` set p" by auto
  from ge have gek: "\<forall>i \<in> fst ` set p. k \<le> i" by auto
  show ?case
    unfolding f using d nk gek by (cases v) simp_all
qed

lemma make_batches_nth:
  assumes "make_batches passed bs = Inr batches" and "k < length batches"
  shows "batches ! k = take (nat bs) (drop (k * nat bs) passed)"
  using assms by (auto simp: make_batches_def split: if_splits)

lemma updates_commute:
  assumes w: "\<forall>batch bid rs. fst (work batch bid) = Inr rs \<longrightarrow> fst ` set rs \<subseteq> fst ` set batch"
    and d: "distinct (map fst passed)"
    and b: "make_batches passed bs = Inr batches"
    and x: "x < length batches" and y: "y < length batches"
  shows "(\<lambda>m. m ++ batch_updates work batches x) \<circ> (\<lambda>m. m ++ batch_updates work batches y)
       = (\<lambda>m. m ++ batch_updates work batches y) \<circ> (\<lambda>m. m ++ batch_updates work batches x)"
proof (cases "x = y")
  case True
  then show ?thesis by simp
next
  case False
  have "fst ` set (batches ! x) \<inter> fst ` set (batches ! y) = {}"
    using slices_disjoint [OF d False, of "nat bs"] make_batches_nth [OF b x]
      make_batches_nth [OF b y] by simp
  with dom_batch_updates [OF w, of batches x] dom_batch_updates [OF w, of batches y]
  have "dom (batch_updates work batches y) \<inter> dom (batch_updates work batches x) = {}"
    by blast
  then have c: "batch_updates work batches y ++ batch_updates work batches x
              = batch_updates work batches x ++ batch_updates work batches y"
    by (rule map_add_comm)
  show ?thesis
  proof
    fix m
    have "(m ++ batch_updates work batches y) ++ batch_updates work batches x
            = m ++ (batch_updates work batches y ++ batch_updates work batches x)"
      by simp
    also have "\<dots> = m ++ (batch_updates work batches x ++ batch_updates work batches y)"
      by (simp only: c)
    also have "\<dots> = (m ++ batch_updates work batches x) ++ batch_updates work batches y"
      by simp
    finally show "((\<lambda>m. m ++ batch_updates work batches x) \<circ> (\<lambda>m. m ++ batch_updates work batches y)) m
       = ((\<lambda>m. m ++ batch_updates work batches y) \<circ> (\<lambda>m. m ++ batch_updates work batches x)) m"
      by simp
  qed
qed

lemma fold_updates_permuted:
  assumes w: "\<forall>batch bid rs. fst (work batch bid) = Inr rs \<longrightarrow> fst ` set rs \<subseteq> fst ` set batch"
    and d: "distinct (map fst passed)"
    and b: "make_batches passed bs = Inr batches"
    and o1: "mset order1 = mset [0..<length batches]"
    and o2: "mset order2 = mset [0..<length batches]"
  shows "fold (\<lambda>bid m. m ++ batch_updates work batches bid) order1
       = fold (\<lambda>bid m. m ++ batch_updates work batches bid) order2"
proof (rule fold_multiset_equiv)
  show "mset order1 = mset order2" using o1 o2 by simp
next
  fix x y assume "x \<in> set order1" and "y \<in> set order1"
  moreover have "set order1 = {0..<length batches}"
    using mset_eq_setD [OF o1] by simp
  ultimately have "x < length batches" and "y < length batches" by auto
  then show "(\<lambda>m. m ++ batch_updates work batches x) \<circ> (\<lambda>m. m ++ batch_updates work batches y)
       = (\<lambda>m. m ++ batch_updates work batches y) \<circ> (\<lambda>m. m ++ batch_updates work batches x)"
    by (rule updates_commute [OF w d b])
qed

lemma apply_rule_filtering_distinct:
  assumes "apply_rule_filtering es = Inr (passed, rr)"
  shows "distinct (map fst passed)"
proof -
  from assms have "passed = fst (rule_loop 0 es)"
    by (auto simp: apply_rule_filtering_def split: prod.splits if_splits)
  then show ?thesis using rule_loop_passed [of 0 es] by simp
qed

lemma build_results_indices:
  "build_results bid evs i ves = Inr rs \<Longrightarrow> map fst rs = map fst ves"
proof (induction ves arbitrary: i rs)
  case Nil
  then show ?case by simp
next
  case (Cons ve rest)
  obtain idx entry where ve: "ve = (idx, entry)" by (cases ve)
  from Cons.prems obtain sc rs' where
    "build_results bid evs (Suc i) rest = Inr rs'" and "map fst rs = idx # map fst rs'"
    by (auto simp: ve ebind_def split: if_splits option.splits sum.splits)
  with Cons.IH [of "Suc i" rs'] show ?case by (simp add: ve)
qed

lemma evaluate_batch_indices:
  "fst ` set (fst (evaluate_batch gen loads entries bid)) \<subseteq> fst ` set entries"
proof -
  have v: "fst ` set (valid_entries entries) \<subseteq> fst ` set entries"
    by (auto simp: valid_entries_def)
  have f: "\<And>g. fst ` set (map (\<lambda>(idx, entry). (idx, g)) (valid_entries entries))
             \<subseteq> fst ` set entries"
    using v by force
  have a: "\<And>g. fst ` set (map (\<lambda>(idx, entry). (idx, g)) entries) \<subseteq> fst ` set entries"
    by force
  have r: "\<And>evs rs. build_results bid evs 0 (valid_entries entries) = Inr rs \<Longrightarrow>
             fst ` set rs \<subseteq> fst ` set entries"
  proof -
    fix evs rs assume "build_results bid evs 0 (valid_entries entries) = Inr rs"
    then have "map fst rs = map fst (valid_entries entries)" by (rule build_results_indices)
    then have "set (map fst rs) = set (map fst (valid_entries entries))" by simp
    with v show "fst ` set rs \<subseteq> fst ` set entries" by simp
  qed
  have shape: "fst (evaluate_batch gen loads entries bid) = []
      \<or> (\<exists>g. fst (evaluate_batch gen loads entries bid)
                = map (\<lambda>(idx, entry). (idx, g)) entries)
      \<or> (\<exists>g. fst (evaluate_batch gen loads entries bid)
                = map (\<lambda>(idx, entry). (idx, g)) (valid_entries entries))
      \<or> (\<exists>evs. build_results bid evs 0 (valid_entries entries)
                = Inr (fst (evaluate_batch gen loads entries bid)))"
    by (simp add: evaluate_batch_def Let_def split: sum.splits) blast
  then consider "fst (evaluate_batch gen loads entries bid) = []"
    | g where "fst (evaluate_batch gen loads entries bid)
                = map (\<lambda>(idx, entry). (idx, g)) entries"
    | g where "fst (evaluate_batch gen loads entries bid)
                = map (\<lambda>(idx, entry). (idx, g)) (valid_entries entries)"
    | evs where "build_results bid evs 0 (valid_entries entries)
                = Inr (fst (evaluate_batch gen loads entries bid))"
    by blast
  then show ?thesis
  proof cases
    case 1
    then show ?thesis by simp
  next
    case 2
    then show ?thesis using a [of g] by (simp only:)
  next
    case 3
    then show ?thesis using f [of g] by (simp only:)
  next
    case 4
    then show ?thesis by (rule r)
  qed
qed

lemma batch_worker_indices:
  "\<forall>batch bid rs. fst (batch_worker gen loads batch bid) = Inr rs \<longrightarrow>
     fst ` set rs \<subseteq> fst ` set batch"
proof (intro allI impI)
  fix batch bid rs
  assume "fst (batch_worker gen loads batch bid) = Inr rs"
  then have "rs = fst (evaluate_batch gen loads batch bid)"
    by (simp add: batch_worker_def split: prod.splits)
  then show "fst ` set rs \<subseteq> fst ` set batch"
    using evaluate_batch_indices by simp
qed

text \<open>
  Claim C7. For the entries that passed the rule stage, two runs of
  \<open>apply_ai_evaluation\<close> with the same batch size and the same worker (each batch yields
  the same result in both runs, and a result list names indices of its own batch only),
  any two completion orders of the futures and any two positive worker counts produce the
  same evaluation mapping: the batches have disjoint index sets, so the order in which
  their results are stored does not matter.
\<close>

theorem apply_ai_evaluation_order_independent:
  assumes "apply_rule_filtering data_entries = Inr (passed_entries, rule_results)"
    and "\<forall>batch bid rs. fst (work batch bid) = Inr rs \<longrightarrow> fst ` set rs \<subseteq> fst ` set batch"
    and "\<forall>ids. mset (sched1 ids) = mset ids" and "\<forall>ids. mset (sched2 ids) = mset ids"
    and "batch_size config1 = batch_size config2"
    and "0 < max_workers config1" and "0 < max_workers config2"
  shows "map_sum id fst (apply_ai_evaluation work sched1 passed_entries config1)
           = map_sum id fst (apply_ai_evaluation work sched2 passed_entries config2)
         \<and> (batch_size config1 \<noteq> 0 \<longrightarrow>
              (\<exists>m calls1 calls2.
                 apply_ai_evaluation work sched1 passed_entries config1 = Inr (m, calls1)
                 \<and> apply_ai_evaluation work sched2 passed_entries config2 = Inr (m, calls2)))"
proof (cases "passed_entries = []")
  case True
  then show ?thesis by (simp add: apply_ai_evaluation_def)
next
  case False
  note ne = False
  show ?thesis
  proof (cases "batch_size config1 = 0")
    case True
    with assms(5) ne show ?thesis
      by (simp add: apply_ai_evaluation_def make_batches_def ebind_def)
  next
    case False
    then have "\<exists>batches. make_batches passed_entries (batch_size config1) = Inr batches"
      by (simp add: make_batches_def)
    then obtain batches where b: "make_batches passed_entries (batch_size config1) = Inr batches"
      by blast
    have d: "distinct (map fst passed_entries)"
      using assms(1) by (rule apply_rule_filtering_distinct)
    let ?ids = "[0..<length batches]"
    let ?run = "\<lambda>sched. fold (collect_future work batches) (sched ?ids) (Map.empty, [])"
    have r1: "apply_ai_evaluation work sched1 passed_entries config1 = Inr (?run sched1)"
      using ne b assms(6) by (simp add: apply_ai_evaluation_def ebind_def)
    have r2: "apply_ai_evaluation work sched2 passed_entries config2 = Inr (?run sched2)"
      using ne b assms(5,7) by (simp add: apply_ai_evaluation_def ebind_def)
    have "fold (\<lambda>bid m. m ++ batch_updates work batches bid) (sched1 ?ids)
        = fold (\<lambda>bid m. m ++ batch_updates work batches bid) (sched2 ?ids)"
      using assms(2) d b assms(3,4) by (intro fold_updates_permuted) auto
    then have eq: "fst (?run sched1) = fst (?run sched2)"
      by (simp add: fst_fold_collect)
    have "apply_ai_evaluation work sched1 passed_entries config1
            = Inr (fst (?run sched1), snd (?run sched1))"
      using r1 by simp
    moreover have "apply_ai_evaluation work sched2 passed_entries config2
            = Inr (fst (?run sched1), snd (?run sched2))"
      using r2 eq by simp
    ultimately show ?thesis by (simp del: prod.collapse)
  qed
qed

theorem apply_ai_evaluation_order_independent_witness:
  "apply_rule_filtering three_entries
     = Inr (fst (rule_loop 0 three_entries), snd (rule_loop 0 three_entries))
   \<and> batch_size one_worker_config = batch_size eight_worker_config
   \<and> 0 < max_workers one_worker_config \<and> 0 < max_workers eight_worker_config
   \<and> (\<exists>m calls1 calls2.
        apply_ai_evaluation (batch_worker failing_gen sample_loads) id
          (fst (rule_loop 0 three_entries)) one_worker_config = Inr (m, calls1)
        \<and> apply_ai_evaluation (batch_worker failing_gen sample_loads) rev
          (fst (rule_loop 0 three_entries)) eight_worker_config = Inr (m, calls2))"
proof -
  have a: "apply_rule_filtering three_entries
     = Inr (fst (rule_loop 0 three_entries), snd (rule_loop 0 three_entries))"
    by (simp add: apply_rule_filtering_def three_entries_def split: prod.splits)
  have s1: "\<forall>ids::nat list. mset (id ids) = mset ids" by simp
  have s2: "\<forall>ids::nat list. mset (rev ids) = mset ids" by simp
  have b: "batch_size one_worker_config = batch_size eight_worker_config"
    by (simp add: one_worker_config_def eight_worker_config_def)
  have w1: "0 < max_workers one_worker_config" by (simp add: one_worker_config_def)
  have w8: "0 < max_workers eight_worker_config" by (simp add: eight_worker_config_def)
  have nz: "batch_size one_worker_config \<noteq> 0" by (simp add: one_worker_config_def)
  from apply_ai_evaluation_order_independent [OF a batch_worker_indices s1 s2 b w1 w8] nz
  have "\<exists>m calls1 calls2.
        apply_ai_evaluation (batch_worker failing_gen sample_loads) id
          (fst (rule_loop 0 three_entries)) one_worker_config = Inr (m, calls1)
        \<and> apply_ai_evaluation (batch_worker failing_gen sample_loads) rev
          (fst (rule_loop 0 three_entries)) eight_worker_config = Inr (m, calls2)"
    by blast
  with a b w1 w8 show ?thesis by blast
qed

text \<open>
  Claim C10. On an empty list of entries \<open>apply_rule_filtering\<close> raises
  \<open>ZeroDivisionError\<close> when it computes the pass rate; \<open>filter_data\<close> therefore ends
  with that exception instead of the report that no entry passed the rules, and no
  prompt has been sent to the judgment service.
\<close>

theorem empty_input_division_by_zero:
  "apply_rule_filtering [] = Inl ZeroDivisionError
   \<and> filter_data gen loads sched [] config = (Aborted ZeroDivisionError, [])
   \<and> fst (filter_data gen loads sched [] config) \<noteq> NoRulePassed"
  by (simp add: apply_rule_filtering_def filter_data_def)

end
